theory Spec2Isabelle
  imports Complex_Main "HOL-Library.Sublist"
begin

section \<open>Data model\<close>

text \<open>
  The repository holds several successive versions of one small server: the files
  \<^verbatim>\<open>index.js\<close>, \<^verbatim>\<open>working_redGreen.js\<close>, \<^verbatim>\<open>24hr_check.js\<close> and four
  older ones. Each polls a list of collections, ranks them by list position and compares
  the rank with a stored one. Ranks and epoch seconds are JavaScript numbers holding
  integers; they are modelled as \<^typ>\<open>int\<close>. A JSON object read from or written to a
  file is a map from its own string keys; a file that parses to something else than an
  object is not modelled. The list \<open>collections\<close> of a cycle is what
  \<^verbatim>\<open>fetchTopCollections\<close> returned, at most 100 records after its
  \<^verbatim>\<open>slice(0, 100)\<close>; the fetch itself, the drawing and the HTTP server are outside the
  model.
\<close>

datatype movement = Up | Down | Same

datatype js_error = ReadError | TypeError | LoadImageError

type_synonym rankings = "string \<rightharpoonup> int"

type_synonym colors = "string \<rightharpoonup> string"

subsection \<open>Properties of objects\<close>

text \<open>
  Every object the code reads (\<^verbatim>\<open>{}\<close> or the result of \<^verbatim>\<open>JSON.parse\<close>) inherits
  from \<^verbatim>\<open>Object.prototype\<close>. These are the names of the properties it inherits in
  Node.js; each is a function, but \<^verbatim>\<open>__proto__\<close>, which reads as the prototype object
  itself. All of them are truthy and none is a number or a string.
\<close>

definition inheritedNames :: "string set" where
  "inheritedNames =
     {''constructor'', ''__defineGetter__'', ''__defineSetter__'', ''hasOwnProperty'',
      ''__lookupGetter__'', ''__lookupSetter__'', ''isPrototypeOf'', ''propertyIsEnumerable'',
      ''toString'', ''valueOf'', ''__proto__'', ''toLocaleString''}"

text \<open>
  What \<^verbatim>\<open>obj[key]\<close> reads: \<^verbatim>\<open>undefined\<close>, the value of an own property, or the
  inherited value of the name.
\<close>

datatype 'a property = Absent | Own 'a | Inherited string

definition getProp :: "(string \<rightharpoonup> 'a) \<Rightarrow> string \<Rightarrow> 'a property" where
  "getProp obj k =
     (case obj k of
        Some v \<Rightarrow> Own v
      | None \<Rightarrow> if k \<in> inheritedNames then Inherited k else Absent)"

text \<open>
  \<^verbatim>\<open>obj[key] = value\<close> on an object made by \<^verbatim>\<open>{}\<close>: an own property is created
  or overwritten, except under the key \<^verbatim>\<open>__proto__\<close>, whose inherited setter stores
  nothing in the object (it ignores a number or a string, and an object only becomes the
  prototype).
\<close>

definition setProp :: "(string \<rightharpoonup> 'a) \<Rightarrow> string \<Rightarrow> 'a \<Rightarrow> (string \<rightharpoonup> 'a)" where
  "setProp obj k v = (if k = ''__proto__'' then obj else obj(k \<mapsto> v))"

subsection \<open>Rank movement\<close>

text \<open>
  The right operand of the two comparisons: a number, or an inherited function or object,
  which a comparison with a number converts to \<^verbatim>\<open>NaN\<close>.
\<close>

datatype operand = Number int | NotNumber

text \<open>
  \<^verbatim>\<open>previousRankings[collection.id] || 101\<close>: \<^verbatim>\<open>||\<close> replaces every falsy value,
  so \<^verbatim>\<open>undefined\<close> and a stored \<^verbatim>\<open>0\<close> are replaced, and an inherited value, being
  truthy, is kept.
\<close>

definition rankOr101 :: "int property \<Rightarrow> operand" where
  "rankOr101 v =
     (case v of
        Absent \<Rightarrow> Number 101
      | Own r \<Rightarrow> Number (if r = 0 then 101 else r)
      | Inherited k \<Rightarrow> NotNumber)"

text \<open>\<^verbatim>\<open>a < b\<close> and \<^verbatim>\<open>a > b\<close>: both are false when \<open>b\<close> is \<^verbatim>\<open>NaN\<close>.\<close>

definition numLess :: "int \<Rightarrow> operand \<Rightarrow> bool" where
  "numLess a b = (case b of Number n \<Rightarrow> a < n | NotNumber \<Rightarrow> False)"

definition numGreater :: "int \<Rightarrow> operand \<Rightarrow> bool" where
  "numGreater a b = (case b of Number n \<Rightarrow> a > n | NotNumber \<Rightarrow> False)"

text \<open>
  The comparison chain of \<^verbatim>\<open>updateRankings\<close> (index.js, lines 147 to 154) and of
  \<^verbatim>\<open>getRankMovement\<close> (lines 38 to 40).
\<close>

definition rankMovement :: "int \<Rightarrow> operand \<Rightarrow> movement" where
  "rankMovement currentRank previousRank =
     (if numLess currentRank previousRank then Up
      else if numGreater currentRank previousRank then Down
      else Same)"

text \<open>
  \<^verbatim>\<open>getRankMovement(currentRank, collectionId)\<close> reads and parses
  \<^verbatim>\<open>previous_rankings.json\<close> with no handler around it: a missing or unparsable file
  (\<^const>\<open>None\<close>) makes the call throw.
\<close>

definition getRankMovement :: "rankings option \<Rightarrow> int \<Rightarrow> string \<Rightarrow> js_error + movement" where
  "getRankMovement file currentRank collectionId =
     (case file of
        None \<Rightarrow> Inl ReadError
      | Some previousRankings \<Rightarrow>
          Inr (rankMovement currentRank (rankOr101 (getProp previousRankings collectionId))))"

subsection \<open>Rolling history (24hr_check.js)\<close>

text \<open>
  One entry of \<^verbatim>\<open>rankings_history.json\<close>: \<^verbatim>\<open>{ timestamp, rankings }\<close>, the
  timestamp in epoch seconds.
\<close>

record snapshot =
  timestamp :: int
  rankings :: rankings

text \<open>
  The \<^verbatim>\<open>for (const snapshot of history)\<close> loop of \<^verbatim>\<open>getPreviousRankings\<close>; the pair
  is \<^verbatim>\<open>(closestSnapshot, minDiff)\<close>.
\<close>

fun closestScan :: "int \<Rightarrow> snapshot list \<Rightarrow> snapshot \<times> int \<Rightarrow> snapshot \<times> int" where
  "closestScan targetTime [] acc = acc"
| "closestScan targetTime (snapshot # rest) (closestSnapshot, minDiff) =
     (let diff = \<bar>timestamp snapshot - targetTime\<bar>
      in if diff < minDiff then closestScan targetTime rest (snapshot, diff)
         else closestScan targetTime rest (closestSnapshot, minDiff))"

text \<open>
  \<^verbatim>\<open>getPreviousRankings(history, targetTime)\<close>; \<^verbatim>\<open>null\<close> is \<^const>\<open>None\<close>. The loop
  starts from \<^verbatim>\<open>history[0]\<close> and runs over the whole array, its first element included.
\<close>

definition getPreviousRankings :: "snapshot list \<Rightarrow> int \<Rightarrow> rankings option" where
  "getPreviousRankings history targetTime =
     (case history of
        [] \<Rightarrow> None
      | first # _ \<Rightarrow>
          (case closestScan targetTime history (first, \<bar>timestamp first - targetTime\<bar>) of
             (closestSnapshot, minDiff) \<Rightarrow>
               if minDiff \<le> 3600 then Some (rankings closestSnapshot) else None))"

text \<open>
  The pruning of \<^verbatim>\<open>updateRankings\<close> (24hr_check.js, lines 152 to 154):
  \<^verbatim>\<open>cutoff = now - 25 * 3600\<close> and
  \<^verbatim>\<open>history.filter(snapshot => snapshot.timestamp >= cutoff)\<close>.
\<close>

definition prune :: "snapshot list \<Rightarrow> int \<Rightarrow> snapshot list" where
  "prune history now =
     (let cutoff = now - 25 * 3600
      in filter (\<lambda>snapshot. timestamp snapshot \<ge> cutoff) history)"

subsection \<open>Collections, images and the state of the process\<close>

text \<open>
  A collection record of the upstream API, with the fields the code reads:
  \<^verbatim>\<open>id\<close>, \<^verbatim>\<open>name\<close>, \<^verbatim>\<open>floorAsk?.price?.amount?.decimal\<close> and
  \<^verbatim>\<open>volume?.['1day']\<close>; \<^const>\<open>None\<close> is a field that is missing.
\<close>

record collection =
  cid :: "string option"
  cname :: "string option"
  floorDecimal :: "real option"
  volume1day :: "real option"

text \<open>
  A colour as the loop holds it: a string, or the inherited value that
  \<^verbatim>\<open>previousColors[collection.id]\<close> reads under an inherited name. What
  \<^verbatim>\<open>generateImage\<close> draws: the background \<^verbatim>\<open>${color}_spiky.png\<close> and four
  lines of text. The name is cut by \<^verbatim>\<open>name.substring(0, 20)\<close>; the two prices are kept
  as numbers, their formatting with \<^verbatim>\<open>toFixed(2)\<close> is not modelled.
\<close>

datatype color = Named string | Prototype string

record image =
  drawnRank :: int
  drawnName :: string
  drawnFloor :: real
  drawnVolume :: real
  spiky :: color

text \<open>
  The memory and the disk of the process: the global \<^verbatim>\<open>latestCollections\<close>, the three
  JSON files (\<^const>\<open>None\<close>: the file is missing or does not parse, so that reading it
  throws) and the images directory, \<^verbatim>\<open>token${tokenId}.png\<close> by token id. Each version
  of the server uses the fields it has and leaves the others alone.
\<close>

record world =
  latestCollections :: "collection list"
  previousRankingsFile :: "rankings option"
  previousColorsFile :: "colors option"
  rankingsHistoryFile :: "snapshot list option"
  imagesDir :: "nat \<rightharpoonup> image"

text \<open>
  The state of one run of \<^verbatim>\<open>updateRankings\<close>: the world, the two objects the loop
  fills, and a log of the loop's local variables \<^verbatim>\<open>(tokenId, collection.id, movement,
  color)\<close>, one entry for each iteration that reached its end. The log is not data of the
  program; it is kept so that the classification of a cycle can be stated.
\<close>

record cycle =
  disk :: world
  newPreviousRankings :: rankings
  newPreviousColors :: "string \<rightharpoonup> color"
  classified :: "(nat \<times> string \<times> movement \<times> color) list"

text \<open>How a run ends: it returns, or it throws with the world as it is at that moment.\<close>

datatype 'a outcome = Returned 'a | Threw js_error 'a

text \<open>\<^verbatim>\<open>collections[i]\<close>: \<^verbatim>\<open>undefined\<close> at and beyond the length.\<close>

definition at_index :: "'a list \<Rightarrow> nat \<Rightarrow> 'a option" where
  "at_index xs i = (if i < length xs then Some (xs ! i) else None)"

text \<open>\<^verbatim>\<open>collection.name || 'Unknown'\<close>: the empty string is falsy too.\<close>

definition nameOrUnknown :: "string option \<Rightarrow> string" where
  "nameOrUnknown n = (case n of None \<Rightarrow> ''Unknown'' | Some s \<Rightarrow> if s = [] then ''Unknown'' else s)"

text \<open>\<^verbatim>\<open>... || 0\<close> on a number that may be missing.\<close>

definition numberOrZero :: "real option \<Rightarrow> real" where
  "numberOrZero x = (case x of None \<Rightarrow> 0 | Some v \<Rightarrow> v)"

text \<open>
  A property key: \<^verbatim>\<open>obj[collection.id]\<close> with a missing id reads and writes the key
  \<^verbatim>\<open>"undefined"\<close>.
\<close>

definition keyOf :: "string option \<Rightarrow> string" where
  "keyOf i = (case i of None \<Rightarrow> ''undefined'' | Some k \<Rightarrow> k)"

text \<open>
  The colour rule (index.js line 156, working_redGreen.js lines 115 to 123):
  \<^verbatim>\<open>movement === 'up' ? 'green' : movement === 'down' ? 'red' :
  (previousColors[collection.id] || 'red')\<close>. An inherited value is truthy and becomes
  the colour.
\<close>

definition stickyColor :: "movement \<Rightarrow> string property \<Rightarrow> color" where
  "stickyColor m previousColor =
     (case m of
        Up \<Rightarrow> Named ''green''
      | Down \<Rightarrow> Named ''red''
      | Same \<Rightarrow> (case previousColor of
                  Absent \<Rightarrow> Named ''red''
                | Own c \<Rightarrow> if c = [] then Named ''red'' else Named c
                | Inherited k \<Rightarrow> Prototype k))"

text \<open>
  \<^verbatim>\<open>JSON.stringify(newPreviousColors, null, 2)\<close>: a property whose value is a function
  is left out of the text, so the file holds the string colours only. (The one inherited
  value that is not a function is read under the key \<^verbatim>\<open>__proto__\<close>, where
  \<^const>\<open>setProp\<close> stores nothing.)
\<close>

definition stringifyColors :: "(string \<rightharpoonup> color) \<Rightarrow> colors" where
  "stringifyColors obj =
     (\<lambda>k. case obj k of Some (Named c) \<Rightarrow> Some c | Some (Prototype n) \<Rightarrow> None | None \<Rightarrow> None)"

subsection \<open>index.js\<close>

text \<open>
  \<^verbatim>\<open>generateImage\<close> of index.js: \<^verbatim>\<open>loadImage\<close> is wrapped in try/catch and a
  failure gives \<^verbatim>\<open>null\<close>. The set \<open>assets\<close> holds the colours whose
  \<^verbatim>\<open>${color}_spiky.png\<close> loads.
\<close>

definition generateImage_index ::
    "color set \<Rightarrow> int \<Rightarrow> string \<Rightarrow> real \<Rightarrow> real \<Rightarrow> color \<Rightarrow> image option" where
  "generateImage_index assets rank n floorPrice volume color =
     (if color \<in> assets
      then Some \<lparr>drawnRank = rank, drawnName = take 20 n, drawnFloor = floorPrice,
                 drawnVolume = volume, spiky = color\<rparr>
      else None)"

text \<open>
  The body of the loop of \<^verbatim>\<open>updateRankings\<close> in index.js (lines 137 to 168). The
  guard \<^verbatim>\<open>!collection || !collection.id\<close> skips the iteration with \<^verbatim>\<open>continue\<close>.
\<close>

definition body_index ::
    "color set \<Rightarrow> rankings \<Rightarrow> colors \<Rightarrow> collection list \<Rightarrow> nat \<Rightarrow> cycle \<Rightarrow> cycle" where
  "body_index assets previousRankings previousColors collections i c =
     (let tokenId = i + 1 in
      case at_index collections i of
        None \<Rightarrow> c
      | Some collection \<Rightarrow>
          (case cid collection of
             None \<Rightarrow> c
           | Some k \<Rightarrow>
               if k = [] then c
               else
                 let currentRank = int tokenId;
                     previousRank = rankOr101 (getProp previousRankings k);
                     movement = rankMovement currentRank previousRank;
                     color = stickyColor movement (getProp previousColors k);
                     n = nameOrUnknown (cname collection);
                     floorPrice = numberOrZero (floorDecimal collection);
                     volume = numberOrZero (volume1day collection);
                     imageBuffer = generateImage_index assets currentRank n floorPrice volume color;
                     d = (case imageBuffer of
                            None \<Rightarrow> disk c
                          | Some b \<Rightarrow> (disk c)\<lparr>imagesDir := (imagesDir (disk c))(tokenId \<mapsto> b)\<rparr>)
                 in c\<lparr>disk := d,
                      newPreviousRankings := setProp (newPreviousRankings c) k currentRank,
                      newPreviousColors := setProp (newPreviousColors c) k color,
                      classified := classified c @ [(tokenId, k, movement, color)]\<rparr>))"

text \<open>
  \<^verbatim>\<open>updateRankings\<close> of index.js; \<open>collections\<close> is what \<^verbatim>\<open>fetchTopCollections\<close>
  returned. \<^verbatim>\<open>JSON.parse(fs.readFileSync(...))\<close> inside try/catch leaves the empty
  object when the file cannot be read.
\<close>

definition updateRankings_index :: "color set \<Rightarrow> collection list \<Rightarrow> world \<Rightarrow> cycle" where
  "updateRankings_index assets collections w =
     (if collections = []
      then \<lparr>disk = w\<lparr>latestCollections := []\<rparr>, newPreviousRankings = Map.empty,
             newPreviousColors = Map.empty, classified = []\<rparr>
      else
        let w1 = w\<lparr>latestCollections := collections\<rparr>;
            previousRankings = (case previousRankingsFile w1 of None \<Rightarrow> Map.empty | Some m \<Rightarrow> m);
            previousColors = (case previousColorsFile w1 of None \<Rightarrow> Map.empty | Some m \<Rightarrow> m);
            numCollections = min (length collections) 100;
            c = fold (body_index assets previousRankings previousColors collections)
                  [0..<numCollections]
                  \<lparr>disk = w1, newPreviousRankings = Map.empty,
                   newPreviousColors = Map.empty, classified = []\<rparr>
        in c\<lparr>disk := (disk c)\<lparr>previousRankingsFile := Some (newPreviousRankings c),
                               previousColorsFile := Some (stringifyColors (newPreviousColors c))\<rparr>\<rparr>)"

subsection \<open>working_redGreen.js\<close>

text \<open>
  A \<^verbatim>\<open>for\<close> loop whose body may throw: the first throw ends the loop.
\<close>

fun forLoop :: "(nat \<Rightarrow> 's \<Rightarrow> 's outcome) \<Rightarrow> nat list \<Rightarrow> 's \<Rightarrow> 's outcome" where
  "forLoop body [] s = Returned s"
| "forLoop body (i # rest) s =
     (case body i s of
        Threw e s' \<Rightarrow> Threw e s'
      | Returned s' \<Rightarrow> forLoop body rest s')"

text \<open>
  \<^verbatim>\<open>generateImage\<close> of working_redGreen.js: \<^verbatim>\<open>loadImage\<close> has no handler, so a
  missing asset rejects the call.
\<close>

definition generateImage_redGreen ::
    "color set \<Rightarrow> int \<Rightarrow> string \<Rightarrow> real \<Rightarrow> real \<Rightarrow> color \<Rightarrow> js_error + image" where
  "generateImage_redGreen assets rank n floorPrice volume color =
     (if color \<in> assets
      then Inr \<lparr>drawnRank = rank, drawnName = take 20 n, drawnFloor = floorPrice,
                drawnVolume = volume, spiky = color\<rparr>
      else Inl LoadImageError)"

text \<open>
  The body of the loop of working_redGreen.js (lines 100 to 136). There is no guard:
  reading \<^verbatim>\<open>collection.id\<close> of an \<^verbatim>\<open>undefined\<close> element throws a TypeError, and a
  record without an id is processed under the key \<^verbatim>\<open>"undefined"\<close>.
\<close>

definition body_redGreen ::
    "color set \<Rightarrow> rankings \<Rightarrow> colors \<Rightarrow> collection list \<Rightarrow> nat \<Rightarrow> cycle \<Rightarrow> cycle outcome" where
  "body_redGreen assets previousRankings previousColors collections i c =
     (let tokenId = i + 1 in
      case at_index collections i of
        None \<Rightarrow> Threw TypeError c
      | Some collection \<Rightarrow>
          let currentRank = int tokenId;
              k = keyOf (cid collection);
              previousRank = rankOr101 (getProp previousRankings k);
              movement = rankMovement currentRank previousRank;
              color = stickyColor movement (getProp previousColors k);
              n = nameOrUnknown (cname collection);
              floorPrice = numberOrZero (floorDecimal collection);
              volume = numberOrZero (volume1day collection)
          in case generateImage_redGreen assets currentRank n floorPrice volume color of
               Inl e \<Rightarrow> Threw e c
             | Inr imageBuffer \<Rightarrow>
                 Returned
                   (c\<lparr>disk := (disk c)\<lparr>imagesDir := (imagesDir (disk c))(tokenId \<mapsto> imageBuffer)\<rparr>,
                      newPreviousRankings := setProp (newPreviousRankings c) k currentRank,
                      newPreviousColors := setProp (newPreviousColors c) k color,
                      classified := classified c @ [(tokenId, k, movement, color)]\<rparr>))"

text \<open>
  \<^verbatim>\<open>updateRankings\<close> of working_redGreen.js: the loop runs \<^verbatim>\<open>for (let i = 0; i < 100;
  i++)\<close> whatever the length of the list.
\<close>

definition updateRankings_redGreen ::
    "color set \<Rightarrow> collection list \<Rightarrow> world \<Rightarrow> cycle outcome" where
  "updateRankings_redGreen assets collections w =
     (if collections = []
      then Returned \<lparr>disk = w, newPreviousRankings = Map.empty,
                      newPreviousColors = Map.empty, classified = []\<rparr>
      else
        let previousRankings = (case previousRankingsFile w of None \<Rightarrow> Map.empty | Some m \<Rightarrow> m);
            previousColors = (case previousColorsFile w of None \<Rightarrow> Map.empty | Some m \<Rightarrow> m)
        in case forLoop (body_redGreen assets previousRankings previousColors collections)
                  [0..<100]
                  \<lparr>disk = w, newPreviousRankings = Map.empty,
                   newPreviousColors = Map.empty, classified = []\<rparr> of
             Threw e c \<Rightarrow> Threw e c
           | Returned c \<Rightarrow>
               Returned
                 (c\<lparr>disk := (disk c)\<lparr>previousRankingsFile := Some (newPreviousRankings c),
                                        previousColorsFile := Some (stringifyColors (newPreviousColors c))\<rparr>\<rparr>))"

subsection \<open>24hr_check.js\<close>

text \<open>
  \<^verbatim>\<open>generateImage\<close> of 24hr_check.js chooses the background from the movement; a
  missing asset rejects the call.
\<close>

definition generateImage_24hr ::
    "color set \<Rightarrow> int \<Rightarrow> string \<Rightarrow> real \<Rightarrow> real \<Rightarrow> movement \<Rightarrow> js_error + image" where
  "generateImage_24hr assets rank n floorPrice volume m =
     (let spikyType = (case m of Up \<Rightarrow> Named ''green'' | Down \<Rightarrow> Named ''red''
                        | Same \<Rightarrow> Named ''orange'')
      in if spikyType \<in> assets
         then Inr \<lparr>drawnRank = rank, drawnName = take 20 n, drawnFloor = floorPrice,
                   drawnVolume = volume, spiky = spikyType\<rparr>
         else Inl LoadImageError)"

text \<open>
  The body of the loop of 24hr_check.js (lines 117 to 139). The movement starts as
  \<^verbatim>\<open>'same'\<close> and is computed only under \<^verbatim>\<open>if (previousRankings)\<close>. An
  \<^verbatim>\<open>undefined\<close> element throws at \<^verbatim>\<open>collection.id\<close> or, without a reference, at
  \<^verbatim>\<open>collection.name\<close>.
\<close>

definition body_24hr ::
    "color set \<Rightarrow> rankings option \<Rightarrow> collection list \<Rightarrow> nat \<Rightarrow> cycle \<Rightarrow> cycle outcome" where
  "body_24hr assets previousRankings collections i c =
     (let tokenId = i + 1 in
      case at_index collections i of
        None \<Rightarrow> Threw TypeError c
      | Some collection \<Rightarrow>
          let currentRank = int tokenId;
              movement = (case previousRankings of
                            None \<Rightarrow> Same
                          | Some reference \<Rightarrow>
                              rankMovement currentRank
                                (rankOr101 (getProp reference (keyOf (cid collection)))));
              n = nameOrUnknown (cname collection);
              floorPrice = numberOrZero (floorDecimal collection);
              volume = numberOrZero (volume1day collection)
          in case generateImage_24hr assets currentRank n floorPrice volume movement of
               Inl e \<Rightarrow> Threw e c
             | Inr imageBuffer \<Rightarrow>
                 Returned
                   (c\<lparr>disk := (disk c)\<lparr>imagesDir := (imagesDir (disk c))(tokenId \<mapsto> imageBuffer)\<rparr>,
                      classified := classified c
                        @ [(tokenId, keyOf (cid collection), movement, spiky imageBuffer)]\<rparr>))"

text \<open>
  \<^verbatim>\<open>collections.forEach((collection, index) => { newSnapshot.rankings[collection.id] =
  index + 1 })\<close>.
\<close>

definition snapshotRankings :: "collection list \<Rightarrow> rankings" where
  "snapshotRankings collections =
     fold (\<lambda>(index, collection) r. setProp r (keyOf (cid collection)) (int index + 1))
       (enumerate 0 collections) Map.empty"

text \<open>
  \<^verbatim>\<open>updateRankings\<close> of 24hr_check.js; \<open>now\<close> is
  \<^verbatim>\<open>Math.floor(Date.now() / 1000)\<close>.
\<close>

definition updateRankings_24hr ::
    "color set \<Rightarrow> int \<Rightarrow> collection list \<Rightarrow> world \<Rightarrow> cycle outcome" where
  "updateRankings_24hr assets now collections w =
     (if collections = []
      then Returned \<lparr>disk = w, newPreviousRankings = Map.empty,
                      newPreviousColors = Map.empty, classified = []\<rparr>
      else
        let history = (case rankingsHistoryFile w of None \<Rightarrow> [] | Some h \<Rightarrow> h);
            targetTime = now - 24 * 3600;
            previousRankings = getPreviousRankings history targetTime
        in case forLoop (body_24hr assets previousRankings collections)
                  [0..<100]
                  \<lparr>disk = w, newPreviousRankings = Map.empty,
                   newPreviousColors = Map.empty, classified = []\<rparr> of
             Threw e c \<Rightarrow> Threw e c
           | Returned c \<Rightarrow>
               let newSnapshot = \<lparr>timestamp = now, rankings = snapshotRankings collections\<rparr>;
                   history1 = history @ [newSnapshot];
                   history2 = prune history1 now
               in Returned (c\<lparr>disk := (disk c)\<lparr>rankingsHistoryFile := Some history2\<rparr>\<rparr>))"

subsection \<open>The metadata endpoint\<close>

text \<open>
  The answer of \<^verbatim>\<open>GET /metadata/:tokenId\<close>: a 404, the 500 that Express sends when
  the handler throws, or the JSON document. The parameter is
  \<^verbatim>\<open>parseInt(req.params.tokenId)\<close>, an integer or \<^verbatim>\<open>NaN\<close> (\<^const>\<open>None\<close>); every
  comparison with \<^verbatim>\<open>NaN\<close> is false.
\<close>

datatype 'm response = NotFound | ServerError | Json 'm

text \<open>The data of the document of index.js; the wording of its strings is left out.\<close>

record metadata =
  rankAttr :: int
  collectionName :: string
  floorAttr :: real
  volumeAttr :: real

definition metadata_index :: "world \<Rightarrow> int option \<Rightarrow> metadata response" where
  "metadata_index w tokenId =
     (let known = length (latestCollections w) in
      case tokenId of
        None \<Rightarrow> if known = 0 then NotFound else ServerError
      | Some t \<Rightarrow>
          if t < 1 \<or> t > int known \<or> known = 0 then NotFound
          else (case at_index (latestCollections w) (nat (t - 1)) of
                  None \<Rightarrow> ServerError
                | Some collection \<Rightarrow>
                    Json \<lparr>rankAttr = t,
                          collectionName = nameOrUnknown (cname collection),
                          floorAttr = numberOrZero (floorDecimal collection),
                          volumeAttr = numberOrZero (volume1day collection)\<rparr>))"

text \<open>
  The handler of 24hr_check.js reads nothing but the parameter; its document holds the
  rank only (\<^const>\<open>None\<close>: the text \<^verbatim>\<open>NaN\<close>).
\<close>

definition metadata_24hr :: "int option \<Rightarrow> int option response" where
  "metadata_24hr tokenId =
     (case tokenId of
        None \<Rightarrow> Json None
      | Some t \<Rightarrow> if t < 1 \<or> t > 100 then NotFound else Json (Some t))"

subsection \<open>Notions used in the statements\<close>

text \<open>The guard of index.js lets a record pass when its id is truthy.\<close>

definition truthyId :: "collection \<Rightarrow> bool" where
  "truthyId collection = (case cid collection of None \<Rightarrow> False | Some k \<Rightarrow> k \<noteq> [])"

text \<open>
  What one iteration of index.js and of working_redGreen.js computes for position \<open>i\<close>:
  the log entry, and the image it draws in a given colour.
\<close>

definition entryOf ::
    "rankings \<Rightarrow> colors \<Rightarrow> collection list \<Rightarrow> nat \<Rightarrow> nat \<times> string \<times> movement \<times> color" where
  "entryOf previousRankings previousColors collections i =
     (let k = keyOf (cid (collections ! i));
          m = rankMovement (int (i + 1)) (rankOr101 (getProp previousRankings k))
      in (i + 1, k, m, stickyColor m (getProp previousColors k)))"

definition imageOf :: "collection list \<Rightarrow> nat \<Rightarrow> color \<Rightarrow> image" where
  "imageOf collections i color =
     \<lparr>drawnRank = int (i + 1),
      drawnName = take 20 (nameOrUnknown (cname (collections ! i))),
      drawnFloor = numberOrZero (floorDecimal (collections ! i)),
      drawnVolume = numberOrZero (volume1day (collections ! i)),
      spiky = color\<rparr>"

text \<open>The entry of one iteration of 24hr_check.js.\<close>

definition entry24 ::
    "rankings option \<Rightarrow> collection list \<Rightarrow> nat \<Rightarrow> nat \<times> string \<times> movement \<times> color" where
  "entry24 previousRankings collections i =
     (let k = keyOf (cid (collections ! i));
          m = (case previousRankings of
                 None \<Rightarrow> Same
               | Some reference \<Rightarrow>
                   rankMovement (int (i + 1)) (rankOr101 (getProp reference k)))
      in (i + 1, k, m,
          case m of Up \<Rightarrow> Named ''green'' | Down \<Rightarrow> Named ''red'' | Same \<Rightarrow> Named ''orange''))"

text \<open>The fields of a log entry.\<close>

definition entryRank :: "nat \<times> string \<times> movement \<times> color \<Rightarrow> nat" where
  "entryRank e = fst e"

definition entryId :: "nat \<times> string \<times> movement \<times> color \<Rightarrow> string" where
  "entryId e = fst (snd e)"

definition entryMovement :: "nat \<times> string \<times> movement \<times> color \<Rightarrow> movement" where
  "entryMovement e = fst (snd (snd e))"

definition entryColor :: "nat \<times> string \<times> movement \<times> color \<Rightarrow> color" where
  "entryColor e = snd (snd (snd e))"

text \<open>Whether a run returned, and the state it ended in either way.\<close>

definition returned :: "'a outcome \<Rightarrow> bool" where
  "returned r = (case r of Returned c \<Rightarrow> True | Threw e c \<Rightarrow> False)"

definition cycleOf :: "'a outcome \<Rightarrow> 'a" where
  "cycleOf r = (case r of Returned c \<Rightarrow> c | Threw e c \<Rightarrow> c)"

text \<open>
  The cycles the timer starts one after the other (\<^verbatim>\<open>setInterval(updateRankings, ...)\<close>
  in index.js), each on the list its fetch returned: the log of every cycle.
\<close>

fun cycles_index :: "color set \<Rightarrow> collection list list \<Rightarrow> world \<Rightarrow>
    (nat \<times> string \<times> movement \<times> color) list list" where
  "cycles_index assets [] w = []"
| "cycles_index assets (collections # rest) w =
     (let c = updateRankings_index assets collections w
      in classified c # cycles_index assets rest (disk c))"

subsection \<open>Concrete inputs\<close>

text \<open>
  A process that has just started on an empty directory, the three backgrounds of the
  repository, and collections with distinct ids: \<^verbatim>\<open>"c"\<close>, \<^verbatim>\<open>"cx"\<close>, \<^verbatim>\<open>"cxx"\<close> and
  so on.
\<close>

definition freshWorld :: world where
  "freshWorld = \<lparr>latestCollections = [], previousRankingsFile = None,
                  previousColorsFile = None, rankingsHistoryFile = None,
                  imagesDir = Map.empty\<rparr>"

definition allAssets :: "color set" where
  "allAssets = {Named ''green'', Named ''red'', Named ''orange''}"

definition sampleCollection :: "nat \<Rightarrow> collection" where
  "sampleCollection i = \<lparr>cid = Some (CHR ''c'' # replicate i CHR ''x''), cname = None,
                          floorDecimal = None, volume1day = None\<rparr>"

definition hundredCollections :: "collection list" where
  "hundredCollections = map sampleCollection [0..<100]"

text \<open>A record without an id, as a malformed answer of the API would hold.\<close>

definition namelessCollection :: collection where
  "namelessCollection = \<lparr>cid = None, cname = Some ''Lost'', floorDecimal = None,
                          volume1day = None\<rparr>"

section \<open>Loops and cycles\<close>

subsection \<open>The loop of index.js\<close>

lemma body_index_skip:
  assumes "i < length cs" and "\<not> truthyId (cs ! i)"
  shows "body_index A pr pc cs i c = c"
  using assms by (auto simp: body_index_def at_index_def truthyId_def split: option.splits)

lemma body_index_step:
  assumes "i < length cs" and "truthyId (cs ! i)"
  shows "body_index A pr pc cs i c
         = c\<lparr>disk := (if entryColor (entryOf pr pc cs i) \<in> A
                       then (disk c)\<lparr>imagesDir := (imagesDir (disk c))
                              (i + 1 \<mapsto> imageOf cs i (entryColor (entryOf pr pc cs i)))\<rparr>
                       else disk c),
              newPreviousRankings := setProp (newPreviousRankings c) (keyOf (cid (cs ! i))) (int (i + 1)),
              newPreviousColors := setProp (newPreviousColors c)
                 (keyOf (cid (cs ! i))) (entryColor (entryOf pr pc cs i)),
              classified := classified c @ [entryOf pr pc cs i]\<rparr>"
  using assms
  by (auto simp: body_index_def at_index_def truthyId_def entryOf_def entryColor_def
      imageOf_def keyOf_def generateImage_index_def Let_def split: option.splits)

lemma index_loop_classified:
  "n \<le> length cs \<Longrightarrow>
   classified (fold (body_index A pr pc cs) [0..<n] c0)
   = classified c0 @ map (entryOf pr pc cs) (filter (\<lambda>i. truthyId (cs ! i)) [0..<n])"
proof (induction n)
  case 0
  then show ?case by simp
next
  case (Suc n)
  then have n: "n < length cs" and IH: "classified (fold (body_index A pr pc cs) [0..<n] c0)
   = classified c0 @ map (entryOf pr pc cs) (filter (\<lambda>i. truthyId (cs ! i)) [0..<n])" by auto
  show ?case
  proof (cases "truthyId (cs ! n)")
    case True
    then show ?thesis using n IH by (simp add: body_index_step del: fun_upd_apply)
  next
    case False
    then show ?thesis using n IH by (simp add: body_index_skip del: fun_upd_apply)
  qed
qed

lemma index_loop_rankings_aux:
  assumes g: "\<And>i m. g i m = setProp m (keyOf (cid (cs ! i))) (int (i + 1))"
  shows "n \<le> length cs \<Longrightarrow>
   newPreviousRankings (fold (body_index A pr pc cs) [0..<n] c0)
   = fold g (filter (\<lambda>i. truthyId (cs ! i)) [0..<n]) (newPreviousRankings c0)"
proof (induction n)
  case 0
  then show ?case by simp
next
  case (Suc n)
  then have n: "n < length cs" and IH: "newPreviousRankings (fold (body_index A pr pc cs) [0..<n] c0)
   = fold g (filter (\<lambda>i. truthyId (cs ! i)) [0..<n]) (newPreviousRankings c0)" by auto
  show ?case
  proof (cases "truthyId (cs ! n)")
    case True
    have "newPreviousRankings (fold (body_index A pr pc cs) [0..<Suc n] c0)
          = setProp (newPreviousRankings (fold (body_index A pr pc cs) [0..<n] c0))
              (keyOf (cid (cs ! n))) (int (n + 1))"
      using n True by (simp add: body_index_step)
    also have "\<dots> = g n (fold g (filter (\<lambda>i. truthyId (cs ! i)) [0..<n]) (newPreviousRankings c0))"
      unfolding IH by (rule g [symmetric])
    also have "\<dots> = fold g (filter (\<lambda>i. truthyId (cs ! i)) [0..<Suc n]) (newPreviousRankings c0)"
      using True by simp
    finally show ?thesis .
  next
    case False
    then show ?thesis using n IH by (simp add: body_index_skip)
  qed
qed

lemma index_loop_rankings:
  "n \<le> length cs \<Longrightarrow>
   newPreviousRankings (fold (body_index A pr pc cs) [0..<n] c0)
   = fold (\<lambda>i m. setProp m (keyOf (cid (cs ! i))) (int (i + 1)))
       (filter (\<lambda>i. truthyId (cs ! i)) [0..<n]) (newPreviousRankings c0)"
  by (rule index_loop_rankings_aux) simp

lemma index_loop_colors_aux:
  assumes g: "\<And>i m. g i m = setProp m (keyOf (cid (cs ! i))) (entryColor (entryOf pr pc cs i))"
  shows "n \<le> length cs \<Longrightarrow>
   newPreviousColors (fold (body_index A pr pc cs) [0..<n] c0)
   = fold g (filter (\<lambda>i. truthyId (cs ! i)) [0..<n]) (newPreviousColors c0)"
proof (induction n)
  case 0
  then show ?case by simp
next
  case (Suc n)
  then have n: "n < length cs" and IH: "newPreviousColors (fold (body_index A pr pc cs) [0..<n] c0)
   = fold g (filter (\<lambda>i. truthyId (cs ! i)) [0..<n]) (newPreviousColors c0)" by auto
  show ?case
  proof (cases "truthyId (cs ! n)")
    case True
    have "newPreviousColors (fold (body_index A pr pc cs) [0..<Suc n] c0)
          = setProp (newPreviousColors (fold (body_index A pr pc cs) [0..<n] c0))
              (keyOf (cid (cs ! n))) (entryColor (entryOf pr pc cs n))"
      using n True by (simp add: body_index_step)
    also have "\<dots> = g n (fold g (filter (\<lambda>i. truthyId (cs ! i)) [0..<n]) (newPreviousColors c0))"
      unfolding IH by (rule g [symmetric])
    also have "\<dots> = fold g (filter (\<lambda>i. truthyId (cs ! i)) [0..<Suc n]) (newPreviousColors c0)"
      using True by simp
    finally show ?thesis .
  next
    case False
    then show ?thesis using n IH by (simp add: body_index_skip)
  qed
qed

lemma index_loop_colors:
  "n \<le> length cs \<Longrightarrow>
   newPreviousColors (fold (body_index A pr pc cs) [0..<n] c0)
   = fold (\<lambda>i m. setProp m (keyOf (cid (cs ! i))) (entryColor (entryOf pr pc cs i)))
       (filter (\<lambda>i. truthyId (cs ! i)) [0..<n]) (newPreviousColors c0)"
  by (rule index_loop_colors_aux) simp

lemma index_loop_disk_aux:
  assumes g: "\<And>i d. g i d = (if entryColor (entryOf pr pc cs i) \<in> A
                     then d(i + 1 \<mapsto> imageOf cs i (entryColor (entryOf pr pc cs i))) else d)"
  shows "n \<le> length cs \<Longrightarrow>
   disk (fold (body_index A pr pc cs) [0..<n] c0)
   = (disk c0)\<lparr>imagesDir :=
        fold g (filter (\<lambda>i. truthyId (cs ! i)) [0..<n]) (imagesDir (disk c0))\<rparr>"
proof (induction n)
  case 0
  then show ?case by simp
next
  case (Suc n)
  then have n: "n < length cs" and IH: "disk (fold (body_index A pr pc cs) [0..<n] c0)
   = (disk c0)\<lparr>imagesDir :=
        fold g (filter (\<lambda>i. truthyId (cs ! i)) [0..<n]) (imagesDir (disk c0))\<rparr>" by auto
  show ?case
  proof (cases "truthyId (cs ! n)")
    case True
    let ?d = "fold g (filter (\<lambda>i. truthyId (cs ! i)) [0..<n]) (imagesDir (disk c0))"
    have "disk (fold (body_index A pr pc cs) [0..<Suc n] c0)
          = (disk c0)\<lparr>imagesDir :=
               (if entryColor (entryOf pr pc cs n) \<in> A
                then ?d(n + 1 \<mapsto> imageOf cs n (entryColor (entryOf pr pc cs n))) else ?d)\<rparr>"
      using n True by (simp add: body_index_step IH)
    also have "\<dots> = (disk c0)\<lparr>imagesDir := g n ?d\<rparr>"
      by (simp only: g)
    also have "\<dots> = (disk c0)\<lparr>imagesDir :=
        fold g (filter (\<lambda>i. truthyId (cs ! i)) [0..<Suc n]) (imagesDir (disk c0))\<rparr>"
      using True by simp
    finally show ?thesis .
  next
    case False
    then show ?thesis using n IH by (simp add: body_index_skip)
  qed
qed

lemma index_loop_disk:
  "n \<le> length cs \<Longrightarrow>
   disk (fold (body_index A pr pc cs) [0..<n] c0)
   = (disk c0)\<lparr>imagesDir :=
        fold (\<lambda>i d. if entryColor (entryOf pr pc cs i) \<in> A
                     then d(i + 1 \<mapsto> imageOf cs i (entryColor (entryOf pr pc cs i))) else d)
          (filter (\<lambda>i. truthyId (cs ! i)) [0..<n]) (imagesDir (disk c0))\<rparr>"
  by (rule index_loop_disk_aux) simp

subsection \<open>Loops that may throw\<close>

lemma forLoop_append:
  "forLoop body (xs @ ys) s
   = (case forLoop body xs s of Threw e s' \<Rightarrow> Threw e s' | Returned s' \<Rightarrow> forLoop body ys s')"
  by (induction xs arbitrary: s) (auto split: outcome.splits)

lemma forLoop_upt_Suc:
  "forLoop body [0..<Suc n] s
   = (case forLoop body [0..<n] s of Threw e s' \<Rightarrow> Threw e s' | Returned s' \<Rightarrow> body n s')"
  by (simp add: forLoop_append split: outcome.splits)

lemma forLoop_invariant:
  assumes step: "\<And>i s. P s \<Longrightarrow> (case body i s of Returned s' \<Rightarrow> P s' | Threw e s' \<Rightarrow> P s')"
    and start: "P s"
  shows "case forLoop body xs s of Returned s' \<Rightarrow> P s' | Threw e s' \<Rightarrow> P s'"
  using start
proof (induction xs arbitrary: s)
  case Nil
  then show ?case by simp
next
  case (Cons i xs)
  show ?case
  proof (cases "body i s")
    case (Returned s1)
    with step [OF Cons.prems, of i] have "P s1" by simp
    then show ?thesis using Returned Cons.IH [of s1] by simp
  next
    case (Threw e s1)
    with step [OF Cons.prems, of i] have "P s1" by simp
    then show ?thesis using Threw by simp
  qed
qed

lemma forLoop_throws_at:
  assumes "k < n" and "\<And>s. \<exists>e. body k s = Threw e s"
  shows "\<exists>e s'. forLoop body [0..<n] s = Threw e s'"
proof -
  from \<open>k < n\<close> have split: "[0..<n] = [0..<k] @ k # [Suc k..<n]"
    by (metis le_add2 le_add_same_cancel2 less_imp_add_positive upt_add_eq_append upt_conv_Cons)
  show ?thesis
  proof (cases "forLoop body [0..<k] s")
    case (Returned s1)
    from assms(2) [of s1] obtain e where "body k s1 = Threw e s1" by blast
    with Returned show ?thesis unfolding split by (simp add: forLoop_append)
  next
    case (Threw e s1)
    then show ?thesis unfolding split by (simp add: forLoop_append)
  qed
qed

subsection \<open>The loop of working_redGreen.js\<close>

lemma body_redGreen_beyond:
  "\<not> i < length cs \<Longrightarrow> body_redGreen A pr pc cs i c = Threw TypeError c"
  by (simp add: body_redGreen_def at_index_def)

lemma body_redGreen_step:
  assumes "i < length cs" and "entryColor (entryOf pr pc cs i) \<in> A"
  shows "body_redGreen A pr pc cs i c
         = Returned
            (c\<lparr>disk := (disk c)\<lparr>imagesDir := (imagesDir (disk c))
                              (i + 1 \<mapsto> imageOf cs i (entryColor (entryOf pr pc cs i)))\<rparr>,
              newPreviousRankings := setProp (newPreviousRankings c) (keyOf (cid (cs ! i))) (int (i + 1)),
              newPreviousColors := setProp (newPreviousColors c)
                 (keyOf (cid (cs ! i))) (entryColor (entryOf pr pc cs i)),
              classified := classified c @ [entryOf pr pc cs i]\<rparr>)"
  using assms
  by (simp add: body_redGreen_def at_index_def entryOf_def entryColor_def
      imageOf_def generateImage_redGreen_def Let_def)

lemma body_redGreen_files:
  "case body_redGreen A pr pc cs i c of
     Returned c' \<Rightarrow> previousRankingsFile (disk c') = previousRankingsFile (disk c)
        \<and> previousColorsFile (disk c') = previousColorsFile (disk c)
        \<and> latestCollections (disk c') = latestCollections (disk c)
        \<and> rankingsHistoryFile (disk c') = rankingsHistoryFile (disk c)
   | Threw e c' \<Rightarrow> c' = c"
  by (simp add: body_redGreen_def at_index_def generateImage_redGreen_def Let_def
      split: option.splits)

lemma redGreen_loop_aux:
  assumes g1: "\<And>i d. g1 i d = d(i + 1 \<mapsto> imageOf cs i (entryColor (entryOf pr pc cs i)))"
    and g2: "\<And>i m. g2 i m = setProp m (keyOf (cid (cs ! i))) (int (i + 1))"
    and g3: "\<And>i m. g3 i m = setProp m (keyOf (cid (cs ! i))) (entryColor (entryOf pr pc cs i))"
  shows "n \<le> length cs \<Longrightarrow> (\<forall>i<n. entryColor (entryOf pr pc cs i) \<in> A) \<Longrightarrow>
   \<exists>c. forLoop (body_redGreen A pr pc cs) [0..<n] c0 = Returned c
     \<and> imagesDir (disk c) = fold g1 [0..<n] (imagesDir (disk c0))
     \<and> newPreviousRankings c = fold g2 [0..<n] (newPreviousRankings c0)
     \<and> newPreviousColors c = fold g3 [0..<n] (newPreviousColors c0)
     \<and> classified c = classified c0 @ map (entryOf pr pc cs) [0..<n]
     \<and> latestCollections (disk c) = latestCollections (disk c0)
     \<and> previousRankingsFile (disk c) = previousRankingsFile (disk c0)
     \<and> previousColorsFile (disk c) = previousColorsFile (disk c0)
     \<and> rankingsHistoryFile (disk c) = rankingsHistoryFile (disk c0)"
proof (induction n)
  case 0
  then show ?case by simp
next
  case (Suc n)
  then have n: "n < length cs" and col: "entryColor (entryOf pr pc cs n) \<in> A" by auto
  from Suc obtain c where run: "forLoop (body_redGreen A pr pc cs) [0..<n] c0 = Returned c"
     and i: "imagesDir (disk c) = fold g1 [0..<n] (imagesDir (disk c0))"
     and r: "newPreviousRankings c = fold g2 [0..<n] (newPreviousRankings c0)"
     and k: "newPreviousColors c = fold g3 [0..<n] (newPreviousColors c0)"
     and l: "classified c = classified c0 @ map (entryOf pr pc cs) [0..<n]"
     and rest: "latestCollections (disk c) = latestCollections (disk c0)"
       "previousRankingsFile (disk c) = previousRankingsFile (disk c0)"
       "previousColorsFile (disk c) = previousColorsFile (disk c0)"
       "rankingsHistoryFile (disk c) = rankingsHistoryFile (disk c0)"
    by auto
  have f1: "fold g1 [0..<Suc n] d = (fold g1 [0..<n] d)(n + 1 \<mapsto> imageOf cs n (entryColor (entryOf pr pc cs n)))" for d
    by (simp only: upt_Suc_append [OF le0] fold_append fold.simps comp_apply id_apply g1)
  have f2: "fold g2 [0..<Suc n] m = setProp (fold g2 [0..<n] m) (keyOf (cid (cs ! n))) (int (n + 1))" for m
    by (simp only: upt_Suc_append [OF le0] fold_append fold.simps comp_apply id_apply g2)
  have f3: "fold g3 [0..<Suc n] m = setProp (fold g3 [0..<n] m) (keyOf (cid (cs ! n))) (entryColor (entryOf pr pc cs n))" for m
    by (simp only: upt_Suc_append [OF le0] fold_append fold.simps comp_apply id_apply g3)
  let ?c = "c\<lparr>disk := (disk c)\<lparr>imagesDir := (imagesDir (disk c))
                              (n + 1 \<mapsto> imageOf cs n (entryColor (entryOf pr pc cs n)))\<rparr>,
              newPreviousRankings := setProp (newPreviousRankings c) (keyOf (cid (cs ! n))) (int (n + 1)),
              newPreviousColors := setProp (newPreviousColors c)
                 (keyOf (cid (cs ! n))) (entryColor (entryOf pr pc cs n)),
              classified := classified c @ [entryOf pr pc cs n]\<rparr>"
  have "forLoop (body_redGreen A pr pc cs) [0..<Suc n] c0 = Returned ?c"
    unfolding forLoop_upt_Suc run by (simp add: body_redGreen_step [OF n col])
  moreover have "imagesDir (disk ?c) = fold g1 [0..<Suc n] (imagesDir (disk c0))"
    unfolding f1 by (simp add: i)
  moreover have "newPreviousRankings ?c = fold g2 [0..<Suc n] (newPreviousRankings c0)"
    unfolding f2 by (simp add: r)
  moreover have "newPreviousColors ?c = fold g3 [0..<Suc n] (newPreviousColors c0)"
    unfolding f3 by (simp add: k)
  moreover have "classified ?c = classified c0 @ map (entryOf pr pc cs) [0..<Suc n]"
    by (simp add: l)
  moreover have "latestCollections (disk ?c) = latestCollections (disk c0)"
       "previousRankingsFile (disk ?c) = previousRankingsFile (disk c0)"
       "previousColorsFile (disk ?c) = previousColorsFile (disk c0)"
       "rankingsHistoryFile (disk ?c) = rankingsHistoryFile (disk c0)"
    by (simp_all add: rest)
  ultimately show ?case by blast
qed

lemma redGreen_loop:
  "n \<le> length cs \<Longrightarrow> (\<forall>i<n. entryColor (entryOf pr pc cs i) \<in> A) \<Longrightarrow>
   \<exists>c. forLoop (body_redGreen A pr pc cs) [0..<n] c0 = Returned c
     \<and> imagesDir (disk c)
         = fold (\<lambda>i d. d(i + 1 \<mapsto> imageOf cs i (entryColor (entryOf pr pc cs i))))
             [0..<n] (imagesDir (disk c0))
     \<and> newPreviousRankings c
         = fold (\<lambda>i m. setProp m (keyOf (cid (cs ! i))) (int (i + 1))) [0..<n] (newPreviousRankings c0)
     \<and> newPreviousColors c
         = fold (\<lambda>i m. setProp m (keyOf (cid (cs ! i))) (entryColor (entryOf pr pc cs i)))
             [0..<n] (newPreviousColors c0)
     \<and> classified c = classified c0 @ map (entryOf pr pc cs) [0..<n]
     \<and> latestCollections (disk c) = latestCollections (disk c0)
     \<and> previousRankingsFile (disk c) = previousRankingsFile (disk c0)
     \<and> previousColorsFile (disk c) = previousColorsFile (disk c0)
     \<and> rankingsHistoryFile (disk c) = rankingsHistoryFile (disk c0)"
  by (rule redGreen_loop_aux) simp_all

subsection \<open>The loop of 24hr_check.js\<close>

lemma body_24hr_beyond:
  "\<not> i < length cs \<Longrightarrow> body_24hr A pr cs i c = Threw TypeError c"
  by (simp add: body_24hr_def at_index_def)

lemma body_24hr_step:
  assumes "i < length cs" and "entryColor (entry24 pr cs i) \<in> A"
  shows "body_24hr A pr cs i c
         = Returned
            (c\<lparr>disk := (disk c)\<lparr>imagesDir := (imagesDir (disk c))
                              (i + 1 \<mapsto> imageOf cs i (entryColor (entry24 pr cs i)))\<rparr>,
              classified := classified c @ [entry24 pr cs i]\<rparr>)"
  using assms
  by (cases pr)
    (simp_all add: body_24hr_def at_index_def entry24_def entryColor_def
      imageOf_def generateImage_24hr_def Let_def)

lemma body_24hr_files:
  "case body_24hr A pr cs i c of
     Returned c' \<Rightarrow> previousRankingsFile (disk c') = previousRankingsFile (disk c)
        \<and> previousColorsFile (disk c') = previousColorsFile (disk c)
        \<and> latestCollections (disk c') = latestCollections (disk c)
        \<and> rankingsHistoryFile (disk c') = rankingsHistoryFile (disk c)
   | Threw e c' \<Rightarrow> c' = c"
  by (simp add: body_24hr_def at_index_def generateImage_24hr_def Let_def
      split: option.splits)

lemma loop24_aux:
  assumes g1: "\<And>i d. g1 i d = d(i + 1 \<mapsto> imageOf cs i (entryColor (entry24 pr cs i)))"
  shows "n \<le> length cs \<Longrightarrow> (\<forall>i<n. entryColor (entry24 pr cs i) \<in> A) \<Longrightarrow>
   \<exists>c. forLoop (body_24hr A pr cs) [0..<n] c0 = Returned c
     \<and> imagesDir (disk c) = fold g1 [0..<n] (imagesDir (disk c0))
     \<and> classified c = classified c0 @ map (entry24 pr cs) [0..<n]
     \<and> latestCollections (disk c) = latestCollections (disk c0)
     \<and> previousRankingsFile (disk c) = previousRankingsFile (disk c0)
     \<and> previousColorsFile (disk c) = previousColorsFile (disk c0)
     \<and> rankingsHistoryFile (disk c) = rankingsHistoryFile (disk c0)"
proof (induction n)
  case 0
  then show ?case by simp
next
  case (Suc n)
  then have n: "n < length cs" and col: "entryColor (entry24 pr cs n) \<in> A" by auto
  from Suc obtain c where run: "forLoop (body_24hr A pr cs) [0..<n] c0 = Returned c"
     and i: "imagesDir (disk c) = fold g1 [0..<n] (imagesDir (disk c0))"
     and l: "classified c = classified c0 @ map (entry24 pr cs) [0..<n]"
     and rest: "latestCollections (disk c) = latestCollections (disk c0)"
       "previousRankingsFile (disk c) = previousRankingsFile (disk c0)"
       "previousColorsFile (disk c) = previousColorsFile (disk c0)"
       "rankingsHistoryFile (disk c) = rankingsHistoryFile (disk c0)"
    by auto
  have f1: "fold g1 [0..<Suc n] d = (fold g1 [0..<n] d)(n + 1 \<mapsto> imageOf cs n (entryColor (entry24 pr cs n)))" for d
    by (simp only: upt_Suc_append [OF le0] fold_append fold.simps comp_apply id_apply g1)
  let ?c = "c\<lparr>disk := (disk c)\<lparr>imagesDir := (imagesDir (disk c))
                              (n + 1 \<mapsto> imageOf cs n (entryColor (entry24 pr cs n)))\<rparr>,
              classified := classified c @ [entry24 pr cs n]\<rparr>"
  have "forLoop (body_24hr A pr cs) [0..<Suc n] c0 = Returned ?c"
    unfolding forLoop_upt_Suc run by (simp add: body_24hr_step [OF n col])
  moreover have "imagesDir (disk ?c) = fold g1 [0..<Suc n] (imagesDir (disk c0))"
    unfolding f1 by (simp add: i)
  moreover have "classified ?c = classified c0 @ map (entry24 pr cs) [0..<Suc n]"
    by (simp add: l)
  moreover have "latestCollections (disk ?c) = latestCollections (disk c0)"
       "previousRankingsFile (disk ?c) = previousRankingsFile (disk c0)"
       "previousColorsFile (disk ?c) = previousColorsFile (disk c0)"
       "rankingsHistoryFile (disk ?c) = rankingsHistoryFile (disk c0)"
    by (simp_all add: rest)
  ultimately show ?case by blast
qed

lemma loop24:
  "n \<le> length cs \<Longrightarrow> (\<forall>i<n. entryColor (entry24 pr cs i) \<in> A) \<Longrightarrow>
   \<exists>c. forLoop (body_24hr A pr cs) [0..<n] c0 = Returned c
     \<and> imagesDir (disk c)
         = fold (\<lambda>i d. d(i + 1 \<mapsto> imageOf cs i (entryColor (entry24 pr cs i))))
             [0..<n] (imagesDir (disk c0))
     \<and> classified c = classified c0 @ map (entry24 pr cs) [0..<n]
     \<and> latestCollections (disk c) = latestCollections (disk c0)
     \<and> previousRankingsFile (disk c) = previousRankingsFile (disk c0)
     \<and> previousColorsFile (disk c) = previousColorsFile (disk c0)
     \<and> rankingsHistoryFile (disk c) = rankingsHistoryFile (disk c0)"
  by (rule loop24_aux) simp

subsection \<open>What a filled object holds\<close>

lemma fold_upd_by_index:
  "i < n \<Longrightarrow> fold (\<lambda>j d. d(j + 1 \<mapsto> F j)) [0..<n] d (i + 1) = Some (F i)"
  by (induction n) (auto simp: less_Suc_eq)

lemma fold_upd_other_index:
  "t = 0 \<or> n < t \<Longrightarrow> fold (\<lambda>j d. d(j + 1 \<mapsto> F j)) [0..<n] d t = d t"
  by (induction n) auto

lemma getProp_empty:
  "getProp Map.empty k = (if k \<in> inheritedNames then Inherited k else Absent)"
  by (simp add: getProp_def)

lemma getProp_Absent_iff:
  "getProp obj k = Absent \<longleftrightarrow> obj k = None \<and> k \<notin> inheritedNames"
  by (simp add: getProp_def split: option.splits)

lemma undefined_not_inherited: "''undefined'' \<notin> inheritedNames"
  by (simp add: inheritedNames_def)

lemma sample_id_not_inherited: "keyOf (cid (sampleCollection j)) \<notin> inheritedNames"
  by (cases j) (simp_all add: sampleCollection_def keyOf_def inheritedNames_def)

lemma fold_setProp_by_key:
  assumes "i < n" and "K i \<noteq> ''__proto__''"
  shows "\<exists>j<n. K j = K i \<and> fold (\<lambda>j m. setProp m (K j) (V j)) [0..<n] m (K i) = Some (V j)"
  using assms(1)
proof (induction n)
  case 0
  then show ?case by simp
next
  case (Suc n)
  let ?f = "\<lambda>j m. setProp m (K j) (V j)"
  have step: "fold ?f [0..<Suc n] m = setProp (fold ?f [0..<n] m) (K n) (V n)" by simp
  show ?case
  proof (cases "K n = K i")
    case True
    with assms(2) have "fold ?f [0..<Suc n] m (K i) = Some (V n)"
      unfolding step by (simp add: setProp_def)
    with True show ?thesis by blast
  next
    case False
    with Suc.prems have "i < n" by (cases "i = n") auto
    from Suc.IH [OF this] obtain j where j: "j < n" "K j = K i"
      "fold ?f [0..<n] m (K i) = Some (V j)" by blast
    from False j(3) have "fold ?f [0..<Suc n] m (K i) = Some (V j)"
      unfolding step by (simp add: setProp_def)
    with j show ?thesis by (metis less_Suc_eq)
  qed
qed

lemma fold_filter_upd_by_index:
  "fold (\<lambda>j d. if C j then d(j + 1 \<mapsto> F j) else d) (filter P [0..<n]) d t
   = (if 1 \<le> t \<and> t \<le> n \<and> P (t - 1) \<and> C (t - 1) then Some (F (t - 1)) else d t)"
proof (induction n)
  case 0
  then show ?case by auto
next
  case (Suc n)
  show ?case
  proof (cases "t = Suc n")
    case True
    then show ?thesis using Suc by simp
  next
    case False
    then show ?thesis using Suc by (auto simp: le_Suc_eq)
  qed
qed

lemma map_Suc_upt: "map Suc [0..<n] = [1..<n + 1]"
  by (induction n) simp_all

lemma map_const_replicate:
  "(\<forall>x\<in>set xs. f x = y) \<Longrightarrow> map f xs = replicate (length xs) y"
  by (induction xs) simp_all

subsection \<open>The log entries\<close>

lemma entryOf_fields:
  "entryRank (entryOf pr pc cs i) = Suc i"
  "entryId (entryOf pr pc cs i) = keyOf (cid (cs ! i))"
  "entryMovement (entryOf pr pc cs i)
     = rankMovement (int (i + 1)) (rankOr101 (getProp pr (keyOf (cid (cs ! i)))))"
  "entryColor (entryOf pr pc cs i)
     = stickyColor (entryMovement (entryOf pr pc cs i)) (getProp pc (keyOf (cid (cs ! i))))"
  by (simp_all add: entryOf_def entryRank_def entryId_def entryMovement_def entryColor_def Let_def)

lemma entry24_fields:
  "entryRank (entry24 pr cs i) = Suc i"
  "entryId (entry24 pr cs i) = keyOf (cid (cs ! i))"
  "entryMovement (entry24 pr cs i)
     = (case pr of None \<Rightarrow> Same
        | Some reference \<Rightarrow>
            rankMovement (int (i + 1)) (rankOr101 (getProp reference (keyOf (cid (cs ! i))))))"
  "entryColor (entry24 pr cs i)
     = (case entryMovement (entry24 pr cs i) of
          Up \<Rightarrow> Named ''green'' | Down \<Rightarrow> Named ''red'' | Same \<Rightarrow> Named ''orange'')"
  by (simp_all add: entry24_def entryRank_def entryId_def entryMovement_def entryColor_def Let_def)

lemma unseen_is_up:
  "i < 100 \<Longrightarrow> rankMovement (int (i + 1)) (rankOr101 Absent) = Up"
  by (simp add: rankMovement_def rankOr101_def numLess_def)

lemma inherited_is_same:
  "rankMovement r (rankOr101 (Inherited k)) = Same"
  by (simp add: rankMovement_def rankOr101_def numLess_def numGreater_def)

text \<open>
  An id that names an inherited property, with no state on disk: in index.js the lookup
  reads a function, both comparisons are false and the record is classified "same"; its
  colour is that function, no background of that name loads, and the colour file is
  written without it. \<^verbatim>\<open>getRankMovement\<close> answers "same" as well.
\<close>

lemma inherited_id_is_same:
  "classified (updateRankings_index allAssets
      [\<lparr>cid = Some ''constructor'', cname = None, floorDecimal = None, volume1day = None\<rparr>]
      freshWorld)
   = [(1, ''constructor'', Same, Prototype ''constructor'')]"
  "imagesDir (disk (updateRankings_index allAssets
      [\<lparr>cid = Some ''constructor'', cname = None, floorDecimal = None, volume1day = None\<rparr>]
      freshWorld)) 1 = None"
  "the (previousColorsFile (disk (updateRankings_index allAssets
      [\<lparr>cid = Some ''constructor'', cname = None, floorDecimal = None, volume1day = None\<rparr>]
      freshWorld))) ''constructor'' = None"
  "the (previousRankingsFile (disk (updateRankings_index allAssets
      [\<lparr>cid = Some ''constructor'', cname = None, floorDecimal = None, volume1day = None\<rparr>]
      freshWorld))) ''constructor'' = Some 1"
  "getRankMovement (Some Map.empty) 7 ''constructor'' = Inr Same"
  by (simp_all add: updateRankings_index_def body_index_def at_index_def freshWorld_def
      allAssets_def getProp_def setProp_def inheritedNames_def rankOr101_def rankMovement_def
      numLess_def numGreater_def stickyColor_def stringifyColors_def generateImage_index_def
      getRankMovement_def nameOrUnknown_def numberOrZero_def Let_def)

lemma entry24_color_loads: "entryColor (entry24 pr cs i) \<in> allAssets"
  by (simp add: entry24_fields(4) allAssets_def split: movement.splits)

subsection \<open>Whole cycles of index.js\<close>

lemma index_cycle_classified:
  assumes "cs \<noteq> []"
  shows "classified (updateRankings_index A cs w)
         = map (entryOf (case previousRankingsFile w of None \<Rightarrow> Map.empty | Some m \<Rightarrow> m)
                        (case previousColorsFile w of None \<Rightarrow> Map.empty | Some m \<Rightarrow> m) cs)
             (filter (\<lambda>i. truthyId (cs ! i)) [0..<min (length cs) 100])"
  using assms
  by (simp add: updateRankings_index_def Let_def index_loop_classified)

text \<open>
  index.js bounds its loop by \<^verbatim>\<open>Math.min(collections.length, 100)\<close>: on a list of fewer
  than 100 records, all with an id, it classifies exactly the positions of the list, writes
  their ranks and touches no image of a higher rank.
\<close>

lemma index_cycle_short_list:
  assumes ne: "cs \<noteq> []" and short: "length cs < 100" and ids: "\<forall>c\<in>set cs. truthyId c"
  shows "map entryRank (classified (updateRankings_index A cs w)) = [1..<length cs + 1]"
    and "map entryId (classified (updateRankings_index A cs w)) = map (keyOf \<circ> cid) cs"
    and "length cs < t \<Longrightarrow> imagesDir (disk (updateRankings_index A cs w)) t = imagesDir w t"
    and "previousRankingsFile (disk (updateRankings_index A cs w))
         = Some (fold (\<lambda>i m. setProp m (keyOf (cid (cs ! i))) (int (i + 1))) [0..<length cs] Map.empty)"
proof -
  let ?pr = "case previousRankingsFile w of None \<Rightarrow> Map.empty | Some m \<Rightarrow> m"
  let ?pc = "case previousColorsFile w of None \<Rightarrow> Map.empty | Some m \<Rightarrow> m"
  let ?c0 = "\<lparr>disk = w\<lparr>latestCollections := cs\<rparr>, newPreviousRankings = Map.empty,
               newPreviousColors = Map.empty, classified = []\<rparr>"
  from short have n: "min (length cs) 100 = length cs" by simp
  from ids have all: "filter (\<lambda>i. truthyId (cs ! i)) [0..<length cs] = [0..<length cs]"
    by (simp add: filter_id_conv)
  have cl: "classified (updateRankings_index A cs w) = map (entryOf ?pr ?pc cs) [0..<length cs]"
    using index_cycle_classified [OF ne, of A w] unfolding n all .
  show "map entryRank (classified (updateRankings_index A cs w)) = [1..<length cs + 1]"
    unfolding cl by (simp add: entryOf_fields(1) comp_def map_Suc_upt)
  have "map entryId (classified (updateRankings_index A cs w))
        = map (\<lambda>i. (keyOf \<circ> cid) (cs ! i)) [0..<length cs]"
    unfolding cl by (simp add: entryOf_fields(2) comp_def)
  also have "\<dots> = map (keyOf \<circ> cid) (map (\<lambda>i. cs ! i) [0..<length cs])"
    by (simp add: comp_def)
  also have "\<dots> = map (keyOf \<circ> cid) cs" by (simp only: map_nth)
  finally show "map entryId (classified (updateRankings_index A cs w)) = map (keyOf \<circ> cid) cs" .
  have run: "updateRankings_index A cs w
     = (let c = fold (body_index A ?pr ?pc cs) [0..<length cs] ?c0
        in c\<lparr>disk := (disk c)\<lparr>previousRankingsFile := Some (newPreviousRankings c),
                               previousColorsFile := Some (stringifyColors (newPreviousColors c))\<rparr>\<rparr>)"
    using ne by (simp add: updateRankings_index_def Let_def n)
  show "previousRankingsFile (disk (updateRankings_index A cs w))
         = Some (fold (\<lambda>i m. setProp m (keyOf (cid (cs ! i))) (int (i + 1))) [0..<length cs] Map.empty)"
    unfolding run Let_def
    using index_loop_rankings [where n = "length cs" and cs = cs and A = A and pr = ?pr and pc = ?pc and ?c0.0 = ?c0, OF le_refl] unfolding all by simp
  show "imagesDir (disk (updateRankings_index A cs w)) t = imagesDir w t" if "length cs < t"
  proof -
    have "imagesDir (disk (updateRankings_index A cs w))
          = fold (\<lambda>i d. if entryColor (entryOf ?pr ?pc cs i) \<in> A
                     then d(i + 1 \<mapsto> imageOf cs i (entryColor (entryOf ?pr ?pc cs i))) else d)
              (filter (\<lambda>i. truthyId (cs ! i)) [0..<length cs]) (imagesDir w)"
      unfolding run Let_def
      using index_loop_disk [where n = "length cs" and cs = cs and A = A and pr = ?pr and pc = ?pc and ?c0.0 = ?c0, OF le_refl] by simp
    then show ?thesis using that by (simp only: fold_filter_upd_by_index) simp
  qed
qed

text \<open>
  index.js skips a record whose id is missing or empty and goes on: the record gets no
  log entry and its image is not written, while every record with an id among the first
  100 is classified and, when its background loads, drawn.
\<close>

lemma index_cycle_skips:
  assumes ne: "cs \<noteq> []" and i: "i < min (length cs) 100"
  shows "\<not> truthyId (cs ! i) \<Longrightarrow>
           Suc i \<notin> set (map entryRank (classified (updateRankings_index A cs w)))"
    and "\<not> truthyId (cs ! i) \<Longrightarrow>
           imagesDir (disk (updateRankings_index A cs w)) (i + 1) = imagesDir w (i + 1)"
    and "truthyId (cs ! i) \<Longrightarrow>
           entryOf (case previousRankingsFile w of None \<Rightarrow> Map.empty | Some m \<Rightarrow> m)
                   (case previousColorsFile w of None \<Rightarrow> Map.empty | Some m \<Rightarrow> m) cs i
           \<in> set (classified (updateRankings_index A cs w))"
proof -
  let ?pr = "case previousRankingsFile w of None \<Rightarrow> Map.empty | Some m \<Rightarrow> m"
  let ?pc = "case previousColorsFile w of None \<Rightarrow> Map.empty | Some m \<Rightarrow> m"
  let ?n = "min (length cs) 100"
  let ?c0 = "\<lparr>disk = w\<lparr>latestCollections := cs\<rparr>, newPreviousRankings = Map.empty,
               newPreviousColors = Map.empty, classified = []\<rparr>"
  note cl = index_cycle_classified [OF ne, of A w]
  have ranks: "map entryRank (classified (updateRankings_index A cs w))
               = map Suc (filter (\<lambda>i. truthyId (cs ! i)) [0..<?n])"
    unfolding cl by (simp add: entryOf_fields(1) comp_def)
  show "Suc i \<notin> set (map entryRank (classified (updateRankings_index A cs w)))"
    if "\<not> truthyId (cs ! i)"
    unfolding ranks using that by auto
  show "entryOf ?pr ?pc cs i \<in> set (classified (updateRankings_index A cs w))"
    if "truthyId (cs ! i)"
    unfolding cl using that i by auto
  have run: "updateRankings_index A cs w
     = (let c = fold (body_index A ?pr ?pc cs) [0..<?n] ?c0
        in c\<lparr>disk := (disk c)\<lparr>previousRankingsFile := Some (newPreviousRankings c),
                               previousColorsFile := Some (stringifyColors (newPreviousColors c))\<rparr>\<rparr>)"
    using ne by (simp add: updateRankings_index_def Let_def)
  have le: "?n \<le> length cs" by simp
  have img: "imagesDir (disk (updateRankings_index A cs w))
          = fold (\<lambda>i d. if entryColor (entryOf ?pr ?pc cs i) \<in> A
                     then d(i + 1 \<mapsto> imageOf cs i (entryColor (entryOf ?pr ?pc cs i))) else d)
              (filter (\<lambda>i. truthyId (cs ! i)) [0..<?n]) (imagesDir w)"
    unfolding run Let_def
    using index_loop_disk [where n = ?n and cs = cs and A = A and pr = ?pr and pc = ?pc
                             and ?c0.0 = ?c0, OF le] by simp
  show "imagesDir (disk (updateRankings_index A cs w)) (i + 1) = imagesDir w (i + 1)"
    if "\<not> truthyId (cs ! i)"
    unfolding img using that by (simp only: fold_filter_upd_by_index) simp
qed

subsection \<open>Whole cycles of working_redGreen.js\<close>

lemma redGreen_cycle_completes:
  assumes len: "length cs = 100"
    and col: "\<forall>i<100. entryColor (entryOf
                (case previousRankingsFile w of None \<Rightarrow> Map.empty | Some m \<Rightarrow> m)
                (case previousColorsFile w of None \<Rightarrow> Map.empty | Some m \<Rightarrow> m) cs i) \<in> A"
  shows "\<exists>c. updateRankings_redGreen A cs w = Returned c
     \<and> classified c = map (entryOf
                (case previousRankingsFile w of None \<Rightarrow> Map.empty | Some m \<Rightarrow> m)
                (case previousColorsFile w of None \<Rightarrow> Map.empty | Some m \<Rightarrow> m) cs) [0..<100]
     \<and> imagesDir (disk c)
         = fold (\<lambda>i d. d(i + 1 \<mapsto> imageOf cs i (entryColor (entryOf
                (case previousRankingsFile w of None \<Rightarrow> Map.empty | Some m \<Rightarrow> m)
                (case previousColorsFile w of None \<Rightarrow> Map.empty | Some m \<Rightarrow> m) cs i))))
             [0..<100] (imagesDir w)
     \<and> previousRankingsFile (disk c)
         = Some (fold (\<lambda>i m. setProp m (keyOf (cid (cs ! i))) (int (i + 1))) [0..<100] Map.empty)
     \<and> previousColorsFile (disk c)
         = Some (stringifyColors
             (fold (\<lambda>i m. setProp m (keyOf (cid (cs ! i))) (entryColor (entryOf
                (case previousRankingsFile w of None \<Rightarrow> Map.empty | Some m \<Rightarrow> m)
                (case previousColorsFile w of None \<Rightarrow> Map.empty | Some m \<Rightarrow> m) cs i)))
             [0..<100] Map.empty))
     \<and> latestCollections (disk c) = latestCollections w"
proof -
  let ?pr = "case previousRankingsFile w of None \<Rightarrow> Map.empty | Some m \<Rightarrow> m"
  let ?pc = "case previousColorsFile w of None \<Rightarrow> Map.empty | Some m \<Rightarrow> m"
  let ?c0 = "\<lparr>disk = w, newPreviousRankings = Map.empty,
               newPreviousColors = Map.empty, classified = []\<rparr>"
  from len have le: "100 \<le> length cs" and ne: "cs \<noteq> []" by auto
  from redGreen_loop [OF le col, of ?c0]
  obtain c where run: "forLoop (body_redGreen A ?pr ?pc cs) [0..<100] ?c0 = Returned c"
    and i: "imagesDir (disk c)
         = fold (\<lambda>i d. d(i + 1 \<mapsto> imageOf cs i (entryColor (entryOf ?pr ?pc cs i))))
             [0..<100] (imagesDir (disk ?c0))"
    and r: "newPreviousRankings c
         = fold (\<lambda>i m. setProp m (keyOf (cid (cs ! i))) (int (i + 1))) [0..<100] (newPreviousRankings ?c0)"
    and k: "newPreviousColors c
         = fold (\<lambda>i m. setProp m (keyOf (cid (cs ! i))) (entryColor (entryOf ?pr ?pc cs i)))
             [0..<100] (newPreviousColors ?c0)"
    and l: "classified c = classified ?c0 @ map (entryOf ?pr ?pc cs) [0..<100]"
    and rest: "latestCollections (disk c) = latestCollections (disk ?c0)"
    by blast
  let ?c = "c\<lparr>disk := (disk c)\<lparr>previousRankingsFile := Some (newPreviousRankings c),
                                 previousColorsFile := Some (stringifyColors (newPreviousColors c))\<rparr>\<rparr>"
  have "updateRankings_redGreen A cs w = Returned ?c"
    using ne run by (simp add: updateRankings_redGreen_def Let_def)
  moreover have "classified ?c = map (entryOf ?pr ?pc cs) [0..<100]" using l by simp
  moreover have "imagesDir (disk ?c)
         = fold (\<lambda>i d. d(i + 1 \<mapsto> imageOf cs i (entryColor (entryOf ?pr ?pc cs i))))
             [0..<100] (imagesDir w)"
    using i by simp
  moreover have "previousRankingsFile (disk ?c)
         = Some (fold (\<lambda>i m. setProp m (keyOf (cid (cs ! i))) (int (i + 1))) [0..<100] Map.empty)"
    using r by simp
  moreover have "previousColorsFile (disk ?c)
         = Some (stringifyColors
             (fold (\<lambda>i m. setProp m (keyOf (cid (cs ! i))) (entryColor (entryOf ?pr ?pc cs i)))
             [0..<100] Map.empty))"
    using k by simp
  moreover have "latestCollections (disk ?c) = latestCollections w" using rest by simp
  ultimately show ?thesis by blast
qed

lemma redGreen_cycle_short:
  assumes ne: "cs \<noteq> []" and short: "length cs < 100"
  shows "\<exists>e c. updateRankings_redGreen A cs w = Threw e c
           \<and> previousRankingsFile (disk c) = previousRankingsFile w
           \<and> previousColorsFile (disk c) = previousColorsFile w"
proof -
  let ?pr = "case previousRankingsFile w of None \<Rightarrow> Map.empty | Some m \<Rightarrow> m"
  let ?pc = "case previousColorsFile w of None \<Rightarrow> Map.empty | Some m \<Rightarrow> m"
  let ?c0 = "\<lparr>disk = w, newPreviousRankings = Map.empty,
               newPreviousColors = Map.empty, classified = []\<rparr>"
  let ?P = "\<lambda>c. previousRankingsFile (disk c) = previousRankingsFile w
           \<and> previousColorsFile (disk c) = previousColorsFile w"
  have "\<exists>e. body_redGreen A ?pr ?pc cs (length cs) s = Threw e s" for s
    by (simp add: body_redGreen_beyond)
  from forLoop_throws_at [OF short, of "body_redGreen A ?pr ?pc cs", OF this]
  obtain e s' where thrown: "forLoop (body_redGreen A ?pr ?pc cs) [0..<100] ?c0 = Threw e s'"
    by blast
  have step: "case body_redGreen A ?pr ?pc cs i s of Returned s' \<Rightarrow> ?P s' | Threw e s' \<Rightarrow> ?P s'"
    if "?P s" for i s
    using that body_redGreen_files [where A = A and pr = ?pr and pc = ?pc and cs = cs and i = i and c = s]
    by (cases "body_redGreen A ?pr ?pc cs i s") simp_all
  have "?P ?c0" by simp
  from forLoop_invariant [of ?P "body_redGreen A ?pr ?pc cs", OF step this, of "[0..<100]"]
  have "?P s'" unfolding thrown by simp
  moreover have "updateRankings_redGreen A cs w = Threw e s'"
    using ne thrown by (simp add: updateRankings_redGreen_def Let_def)
  ultimately show ?thesis by blast
qed

lemma redGreen_cycle_short_TypeError:
  assumes ne: "cs \<noteq> []" and short: "length cs < 100"
    and col: "\<forall>i<length cs. entryColor (entryOf
                (case previousRankingsFile w of None \<Rightarrow> Map.empty | Some m \<Rightarrow> m)
                (case previousColorsFile w of None \<Rightarrow> Map.empty | Some m \<Rightarrow> m) cs i) \<in> A"
  shows "\<exists>c. updateRankings_redGreen A cs w = Threw TypeError c
     \<and> classified c = map (entryOf
                (case previousRankingsFile w of None \<Rightarrow> Map.empty | Some m \<Rightarrow> m)
                (case previousColorsFile w of None \<Rightarrow> Map.empty | Some m \<Rightarrow> m) cs) [0..<length cs]"
proof -
  let ?pr = "case previousRankingsFile w of None \<Rightarrow> Map.empty | Some m \<Rightarrow> m"
  let ?pc = "case previousColorsFile w of None \<Rightarrow> Map.empty | Some m \<Rightarrow> m"
  let ?c0 = "\<lparr>disk = w, newPreviousRankings = Map.empty,
               newPreviousColors = Map.empty, classified = []\<rparr>"
  let ?n = "length cs"
  from redGreen_loop [OF le_refl col, of ?c0]
  obtain c where run: "forLoop (body_redGreen A ?pr ?pc cs) [0..<?n] ?c0 = Returned c"
    and l: "classified c = classified ?c0 @ map (entryOf ?pr ?pc cs) [0..<?n]"
    by blast
  from short have split: "[0..<100] = [0..<?n] @ ?n # [Suc ?n..<100]"
    by (metis le_add2 le_add_same_cancel2 less_imp_add_positive upt_add_eq_append upt_conv_Cons)
  have "forLoop (body_redGreen A ?pr ?pc cs) [0..<100] ?c0 = Threw TypeError c"
    unfolding split forLoop_append run by (simp add: body_redGreen_beyond)
  then have "updateRankings_redGreen A cs w = Threw TypeError c"
    using ne by (simp add: updateRankings_redGreen_def Let_def)
  moreover have "classified c = map (entryOf ?pr ?pc cs) [0..<?n]" using l by simp
  ultimately show ?thesis by blast
qed

subsection \<open>Whole cycles of 24hr_check.js\<close>

lemma getPreviousRankings_lost:
  "rankingsHistoryFile w = None \<or> rankingsHistoryFile w = Some [] \<Longrightarrow>
   getPreviousRankings (case rankingsHistoryFile w of None \<Rightarrow> [] | Some h \<Rightarrow> h) t = None"
  by (auto simp: getPreviousRankings_def)

text \<open>A cycle of 24hr_check.js on 100 collections whose backgrounds load.\<close>

lemma cycle24_completes:
  assumes len: "length cs = 100"
    and col: "\<forall>i<100. entryColor (entry24 (getPreviousRankings
                (case rankingsHistoryFile w of None \<Rightarrow> [] | Some h \<Rightarrow> h) (now - 24 * 3600)) cs i) \<in> A"
  shows "\<exists>c. updateRankings_24hr A now cs w = Returned c
     \<and> classified c = map (entry24 (getPreviousRankings
                (case rankingsHistoryFile w of None \<Rightarrow> [] | Some h \<Rightarrow> h) (now - 24 * 3600)) cs) [0..<100]
     \<and> rankingsHistoryFile (disk c)
         = Some (prune ((case rankingsHistoryFile w of None \<Rightarrow> [] | Some h \<Rightarrow> h)
                   @ [\<lparr>timestamp = now, rankings = snapshotRankings cs\<rparr>]) now)
     \<and> latestCollections (disk c) = latestCollections w
     \<and> previousRankingsFile (disk c) = previousRankingsFile w
     \<and> previousColorsFile (disk c) = previousColorsFile w"
proof -
  let ?h = "case rankingsHistoryFile w of None \<Rightarrow> [] | Some h \<Rightarrow> h"
  let ?pr = "getPreviousRankings ?h (now - 24 * 3600)"
  let ?c0 = "\<lparr>disk = w, newPreviousRankings = Map.empty,
               newPreviousColors = Map.empty, classified = []\<rparr>"
  from len have le: "100 \<le> length cs" and ne: "cs \<noteq> []" by auto
  from loop24 [OF le col, of ?c0]
  obtain c where run: "forLoop (body_24hr A ?pr cs) [0..<100] ?c0 = Returned c"
    and l: "classified c = classified ?c0 @ map (entry24 ?pr cs) [0..<100]"
    and rest: "latestCollections (disk c) = latestCollections (disk ?c0)"
       "previousRankingsFile (disk c) = previousRankingsFile (disk ?c0)"
       "previousColorsFile (disk c) = previousColorsFile (disk ?c0)"
    by blast
  let ?c = "c\<lparr>disk := (disk c)\<lparr>rankingsHistoryFile :=
             Some (prune (?h @ [\<lparr>timestamp = now, rankings = snapshotRankings cs\<rparr>]) now)\<rparr>\<rparr>"
  have "updateRankings_24hr A now cs w = Returned ?c"
    using ne run by (simp add: updateRankings_24hr_def Let_def)
  moreover have "classified ?c = map (entry24 ?pr cs) [0..<100]" using l by simp
  moreover have "rankingsHistoryFile (disk ?c)
         = Some (prune (?h @ [\<lparr>timestamp = now, rankings = snapshotRankings cs\<rparr>]) now)" by simp
  moreover have "latestCollections (disk ?c) = latestCollections w"
     "previousRankingsFile (disk ?c) = previousRankingsFile w"
     "previousColorsFile (disk ?c) = previousColorsFile w" using rest by simp_all
  ultimately show ?thesis by blast
qed

text \<open>A cycle of 24hr_check.js that returns on a non-empty list had 100 collections or more.\<close>

lemma cycle24_returned_length:
  assumes "updateRankings_24hr A now cs w = Returned c" and "cs \<noteq> []"
  shows "100 \<le> length cs"
proof (rule ccontr)
  assume "\<not> 100 \<le> length cs"
  then have short: "length cs < 100" by simp
  let ?h = "case rankingsHistoryFile w of None \<Rightarrow> [] | Some h \<Rightarrow> h"
  let ?pr = "getPreviousRankings ?h (now - 24 * 3600)"
  have "\<exists>e. body_24hr A ?pr cs (length cs) s = Threw e s" for s
    by (simp add: body_24hr_beyond)
  from forLoop_throws_at [OF short, of "body_24hr A ?pr cs", OF this]
  obtain e s' where "forLoop (body_24hr A ?pr cs) [0..<100]
      \<lparr>disk = w, newPreviousRankings = Map.empty, newPreviousColors = Map.empty, classified = []\<rparr>
      = Threw e s'" by blast
  with assms show False by (simp add: updateRankings_24hr_def Let_def)
qed

lemma body_24hr_returned:
  assumes "body_24hr A pr cs i c1 = Returned c"
  shows "i < length cs \<and> classified c = classified c1 @ [entry24 pr cs i]"
proof (cases "i < length cs")
  case False
  with assms show ?thesis by (simp add: body_24hr_beyond)
next
  case True
  show ?thesis
  proof (cases "entryColor (entry24 pr cs i) \<in> A")
    case loads: True
    from assms show ?thesis unfolding body_24hr_step [OF True loads] using True by auto
  next
    case False
    with True have "body_24hr A pr cs i c1 = Threw LoadImageError c1"
      by (cases pr)
        (simp_all add: body_24hr_def at_index_def entry24_def entryColor_def
          generateImage_24hr_def Let_def)
    with assms show ?thesis by simp
  qed
qed

lemma loop24_returned:
  "forLoop (body_24hr A pr cs) [0..<n] c0 = Returned c \<Longrightarrow>
   n \<le> length cs \<and> classified c = classified c0 @ map (entry24 pr cs) [0..<n]"
proof (induction n arbitrary: c)
  case 0
  then show ?case by simp
next
  case (Suc n)
  show ?case
  proof (cases "forLoop (body_24hr A pr cs) [0..<n] c0")
    case (Threw e c1)
    with Suc.prems show ?thesis unfolding forLoop_upt_Suc by simp
  next
    case (Returned c1)
    with Suc.prems have last: "body_24hr A pr cs n c1 = Returned c"
      unfolding forLoop_upt_Suc by simp
    from Suc.IH [OF Returned]
    have l: "classified c1 = classified c0 @ map (entry24 pr cs) [0..<n]" by simp
    from body_24hr_returned [OF last] l show ?thesis by simp
  qed
qed

text \<open>A cycle of 24hr_check.js that ran to its end has classified 100 positions.\<close>

lemma cycle24_returned:
  assumes "updateRankings_24hr A now cs w = Returned c" and "cs \<noteq> []"
  shows "classified c = map (entry24 (getPreviousRankings
                (case rankingsHistoryFile w of None \<Rightarrow> [] | Some h \<Rightarrow> h) (now - 24 * 3600)) cs)
             [0..<100]"
proof -
  let ?pr = "getPreviousRankings (case rankingsHistoryFile w of None \<Rightarrow> [] | Some h \<Rightarrow> h) (now - 24 * 3600)"
  let ?c0 = "\<lparr>disk = w, newPreviousRankings = Map.empty, newPreviousColors = Map.empty,
              classified = []\<rparr>"
  show ?thesis
  proof (cases "forLoop (body_24hr A ?pr cs) [0..<100] ?c0")
    case (Threw e c1)
    with assms show ?thesis by (simp add: updateRankings_24hr_def Let_def)
  next
    case (Returned c1)
    from loop24_returned [OF Returned]
    have "classified c1 = map (entry24 ?pr cs) [0..<100]" by simp
    moreover from assms Returned have "classified c = classified c1"
      by (auto simp: updateRankings_24hr_def Let_def)
    ultimately show ?thesis by simp
  qed
qed

section \<open>Properties\<close>

subsection \<open>Rank movement\<close>



subsection \<open>Nearest snapshot\<close>

text \<open>
  The scan keeps the distance of the snapshot it holds, ends on a distance no snapshot of
  the list beats, and replaces the snapshot it started with only by the first snapshot of
  the list that is strictly nearer than everything before it.
\<close>

lemma closestScan_inv:
  assumes "closestScan t xs (c, d) = (c', d')" and "d = \<bar>timestamp c - t\<bar>"
  shows "d' = \<bar>timestamp c' - t\<bar> \<and> d' \<le> d \<and> (\<forall>s\<in>set xs. d' \<le> \<bar>timestamp s - t\<bar>)
       \<and> ((c' = c \<and> d' = d)
          \<or> (\<exists>i<length xs. c' = xs ! i \<and> \<bar>timestamp (xs ! i) - t\<bar> < d
                \<and> (\<forall>j<i. \<bar>timestamp (xs ! i) - t\<bar> < \<bar>timestamp (xs ! j) - t\<bar>)))"
  using assms
proof (induction xs arbitrary: c d)
  case Nil
  then show ?case by auto
next
  case (Cons x xs)
  let ?dx = "\<bar>timestamp x - t\<bar>"
  show ?case
  proof (cases "?dx < d")
    case True
    with Cons.prems have run: "closestScan t xs (x, ?dx) = (c', d')" by (simp add: Let_def)
    from Cons.IH [OF run refl]
    have a: "d' = \<bar>timestamp c' - t\<bar>" and b: "d' \<le> ?dx"
      and m: "\<forall>s\<in>set xs. d' \<le> \<bar>timestamp s - t\<bar>"
      and alt: "(c' = x \<and> d' = ?dx)
          \<or> (\<exists>i<length xs. c' = xs ! i \<and> \<bar>timestamp (xs ! i) - t\<bar> < ?dx
                \<and> (\<forall>j<i. \<bar>timestamp (xs ! i) - t\<bar> < \<bar>timestamp (xs ! j) - t\<bar>))"
      by blast+
    from alt have "\<exists>i<length (x # xs). c' = (x # xs) ! i \<and> \<bar>timestamp ((x # xs) ! i) - t\<bar> < d
                \<and> (\<forall>j<i. \<bar>timestamp ((x # xs) ! i) - t\<bar> < \<bar>timestamp ((x # xs) ! j) - t\<bar>)"
    proof
      assume "c' = x \<and> d' = ?dx"
      with True show ?thesis by (intro exI [of _ 0]) simp
    next
      assume "\<exists>i<length xs. c' = xs ! i \<and> \<bar>timestamp (xs ! i) - t\<bar> < ?dx
                \<and> (\<forall>j<i. \<bar>timestamp (xs ! i) - t\<bar> < \<bar>timestamp (xs ! j) - t\<bar>)"
      then obtain i where i: "i < length xs" "c' = xs ! i" "\<bar>timestamp (xs ! i) - t\<bar> < ?dx"
        "\<forall>j<i. \<bar>timestamp (xs ! i) - t\<bar> < \<bar>timestamp (xs ! j) - t\<bar>" by blast
      show ?thesis
      proof (intro exI [of _ "Suc i"] conjI allI impI)
        fix j assume "j < Suc i"
        then show "\<bar>timestamp ((x # xs) ! Suc i) - t\<bar> < \<bar>timestamp ((x # xs) ! j) - t\<bar>"
          using i by (cases j) auto
      qed (use i True in auto)
    qed
    with a b m True show ?thesis by auto
  next
    case False
    with Cons.prems have run: "closestScan t xs (c, d) = (c', d')" by (simp add: Let_def)
    from Cons.IH [OF run Cons.prems(2)]
    have a: "d' = \<bar>timestamp c' - t\<bar>" and b: "d' \<le> d"
      and m: "\<forall>s\<in>set xs. d' \<le> \<bar>timestamp s - t\<bar>"
      and alt: "(c' = c \<and> d' = d)
          \<or> (\<exists>i<length xs. c' = xs ! i \<and> \<bar>timestamp (xs ! i) - t\<bar> < d
                \<and> (\<forall>j<i. \<bar>timestamp (xs ! i) - t\<bar> < \<bar>timestamp (xs ! j) - t\<bar>))"
      by blast+
    from alt have "(c' = c \<and> d' = d) \<or> (\<exists>i<length (x # xs). c' = (x # xs) ! i \<and> \<bar>timestamp ((x # xs) ! i) - t\<bar> < d
                \<and> (\<forall>j<i. \<bar>timestamp ((x # xs) ! i) - t\<bar> < \<bar>timestamp ((x # xs) ! j) - t\<bar>))"
    proof
      assume "c' = c \<and> d' = d" then show ?thesis by simp
    next
      assume "\<exists>i<length xs. c' = xs ! i \<and> \<bar>timestamp (xs ! i) - t\<bar> < d
                \<and> (\<forall>j<i. \<bar>timestamp (xs ! i) - t\<bar> < \<bar>timestamp (xs ! j) - t\<bar>)"
      then obtain i where i: "i < length xs" "c' = xs ! i" "\<bar>timestamp (xs ! i) - t\<bar> < d"
        "\<forall>j<i. \<bar>timestamp (xs ! i) - t\<bar> < \<bar>timestamp (xs ! j) - t\<bar>" by blast
      have "\<exists>i<length (x # xs). c' = (x # xs) ! i \<and> \<bar>timestamp ((x # xs) ! i) - t\<bar> < d
                \<and> (\<forall>j<i. \<bar>timestamp ((x # xs) ! i) - t\<bar> < \<bar>timestamp ((x # xs) ! j) - t\<bar>)"
      proof (intro exI [of _ "Suc i"] conjI allI impI)
        fix j assume "j < Suc i"
        then show "\<bar>timestamp ((x # xs) ! Suc i) - t\<bar> < \<bar>timestamp ((x # xs) ! j) - t\<bar>"
          using i False by (cases j) auto
      qed (use i in auto)
      then show ?thesis ..
    qed
    with a b m False show ?thesis by auto
  qed
qed

text \<open>
  C2. On an empty history the lookup returns nothing. On a non-empty history there is a
  position \<open>i\<close> whose snapshot is at least as near to the target time as every snapshot of
  the history and strictly nearer than every snapshot before it (the first of those at
  the minimal distance, in iteration order); the lookup returns the rankings of that
  snapshot when its distance is at most 3600 seconds and nothing when it is more.
\<close>

theorem getPreviousRankings_nearest:
  "getPreviousRankings [] t = None
   \<and> (history \<noteq> [] \<longrightarrow>
       (\<exists>i<length history.
          (\<forall>s\<in>set history. \<bar>timestamp (history ! i) - t\<bar> \<le> \<bar>timestamp s - t\<bar>)
        \<and> (\<forall>j<i. \<bar>timestamp (history ! i) - t\<bar> < \<bar>timestamp (history ! j) - t\<bar>)
        \<and> getPreviousRankings history t
            = (if \<bar>timestamp (history ! i) - t\<bar> \<le> 3600 then Some (rankings (history ! i)) else None)))"
proof (intro conjI impI)
  show "getPreviousRankings [] t = None" by (simp add: getPreviousRankings_def)
next
  assume ne: "history \<noteq> []"
  then obtain h0 rest where h: "history = h0 # rest" by (cases history) auto
  obtain c' d' where run: "closestScan t history (h0, \<bar>timestamp h0 - t\<bar>) = (c', d')"
    by (cases "closestScan t history (h0, \<bar>timestamp h0 - t\<bar>)") auto
  from closestScan_inv [OF run refl]
  have a: "d' = \<bar>timestamp c' - t\<bar>"
    and m: "\<forall>s\<in>set history. d' \<le> \<bar>timestamp s - t\<bar>"
    and alt: "(c' = h0 \<and> d' = \<bar>timestamp h0 - t\<bar>)
          \<or> (\<exists>i<length history. c' = history ! i \<and> \<bar>timestamp (history ! i) - t\<bar> < \<bar>timestamp h0 - t\<bar>
                \<and> (\<forall>j<i. \<bar>timestamp (history ! i) - t\<bar> < \<bar>timestamp (history ! j) - t\<bar>))"
    by blast+
  have res: "getPreviousRankings history t = (if d' \<le> 3600 then Some (rankings c') else None)"
    using run h by (simp add: getPreviousRankings_def)
  from alt obtain i where i: "i < length history" "c' = history ! i"
     "\<forall>j<i. \<bar>timestamp (history ! i) - t\<bar> < \<bar>timestamp (history ! j) - t\<bar>"
  proof
    assume "c' = h0 \<and> d' = \<bar>timestamp h0 - t\<bar>"
    then show ?thesis using h that [of 0] by simp
  next
    assume "\<exists>i<length history. c' = history ! i \<and> \<bar>timestamp (history ! i) - t\<bar> < \<bar>timestamp h0 - t\<bar>
                \<and> (\<forall>j<i. \<bar>timestamp (history ! i) - t\<bar> < \<bar>timestamp (history ! j) - t\<bar>)"
    then show ?thesis using that by blast
  qed
  show "\<exists>i<length history.
          (\<forall>s\<in>set history. \<bar>timestamp (history ! i) - t\<bar> \<le> \<bar>timestamp s - t\<bar>)
        \<and> (\<forall>j<i. \<bar>timestamp (history ! i) - t\<bar> < \<bar>timestamp (history ! j) - t\<bar>)
        \<and> getPreviousRankings history t
            = (if \<bar>timestamp (history ! i) - t\<bar> \<le> 3600 then Some (rankings (history ! i)) else None)"
    using i a m res by (intro exI [of _ i]) auto
qed

theorem getPreviousRankings_nearest_witness:
  "[\<lparr>timestamp = 6400, rankings = [''a'' \<mapsto> 1]\<rparr>,
    \<lparr>timestamp = 11800, rankings = [''a'' \<mapsto> 2]\<rparr>,
    \<lparr>timestamp = 15400, rankings = [''a'' \<mapsto> 3]\<rparr>,
    \<lparr>timestamp = 92800, rankings = [''a'' \<mapsto> 4]\<rparr>] \<noteq> []
   \<and> getPreviousRankings
         [\<lparr>timestamp = 6400, rankings = [''a'' \<mapsto> 1]\<rparr>,
          \<lparr>timestamp = 11800, rankings = [''a'' \<mapsto> 2]\<rparr>,
          \<lparr>timestamp = 15400, rankings = [''a'' \<mapsto> 3]\<rparr>,
          \<lparr>timestamp = 92800, rankings = [''a'' \<mapsto> 4]\<rparr>] 13600
       = Some [''a'' \<mapsto> 2]"
proof -
  let ?h = "[\<lparr>timestamp = 6400, rankings = [''a'' \<mapsto> (1::int)]\<rparr>,
             \<lparr>timestamp = 11800, rankings = [''a'' \<mapsto> 2]\<rparr>,
             \<lparr>timestamp = 15400, rankings = [''a'' \<mapsto> 3]\<rparr>,
             \<lparr>timestamp = 92800, rankings = [''a'' \<mapsto> 4]\<rparr>]"
  have ne: "?h \<noteq> []" by simp
  from getPreviousRankings_nearest [of 13600 ?h] ne
  obtain i where i: "i < length ?h"
    and m: "\<forall>s\<in>set ?h. \<bar>timestamp (?h ! i) - 13600\<bar> \<le> \<bar>timestamp s - 13600\<bar>"
    and f: "\<forall>j<i. \<bar>timestamp (?h ! i) - 13600\<bar> < \<bar>timestamp (?h ! j) - 13600\<bar>"
    and r: "getPreviousRankings ?h 13600
            = (if \<bar>timestamp (?h ! i) - 13600\<bar> \<le> 3600 then Some (rankings (?h ! i)) else None)"
    by blast
  from i have "i = 0 \<or> i = 1 \<or> i = 2 \<or> i = 3" by auto
  then have "i = 1"
  proof (elim disjE)
    assume "i = 0" with m show ?thesis by simp
  next
    assume "i = 1" then show ?thesis .
  next
    assume i2: "i = 2"
    have "(1::nat) < 2" by simp
    with f i2 have "\<bar>timestamp (?h ! 2) - 13600\<bar> < \<bar>timestamp (?h ! 1) - 13600\<bar>" by blast
    then show ?thesis by simp
  next
    assume "i = 3" with m show ?thesis by simp
  qed
  with r show ?thesis by simp
qed

subsection \<open>No reference state\<close>

text \<open>
  C3, as the claim states it, fails in 24hr_check.js: with no history file every
  collection of the next completed cycle is classified "same", the first one included.
\<close>

theorem lost_history_counterexample:
  "returned (updateRankings_24hr allAssets 100000 hundredCollections freshWorld)
   \<and> classified (cycleOf (updateRankings_24hr allAssets 100000 hundredCollections freshWorld)) ! 0
       = (1, ''c'', Same, Named ''orange'')
   \<and> entryMovement
        (classified (cycleOf (updateRankings_24hr allAssets 100000 hundredCollections freshWorld)) ! 0)
       \<noteq> Up"
proof -
  let ?run = "updateRankings_24hr allAssets 100000 hundredCollections freshWorld"
  have len: "length hundredCollections = 100" by (simp add: hundredCollections_def)
  have pr: "getPreviousRankings (case rankingsHistoryFile freshWorld of None \<Rightarrow> [] | Some h \<Rightarrow> h)
              (100000 - 24 * 3600) = None"
    by (simp add: freshWorld_def getPreviousRankings_def)
  have "\<forall>i<100. entryColor (entry24 (getPreviousRankings
          (case rankingsHistoryFile freshWorld of None \<Rightarrow> [] | Some h \<Rightarrow> h) (100000 - 24 * 3600))
          hundredCollections i) \<in> allAssets"
    by (simp add: entry24_color_loads)
  from cycle24_completes [OF len this]
  obtain c where run: "?run = Returned c"
    and l: "classified c = map (entry24 None hundredCollections) [0..<100]"
    unfolding pr by blast
  have first: "hundredCollections ! 0 = sampleCollection 0"
    by (simp add: hundredCollections_def nth_map [of 0 "[0..<100]"] del: upt_Suc)
  have "classified c ! 0 = (1, ''c'', Same, Named ''orange'')"
    unfolding l by (simp add: entry24_def first sampleCollection_def keyOf_def del: upt_Suc)
  then show ?thesis using run by (simp add: returned_def cycleOf_def entryMovement_def)
qed

text \<open>
  C3, amended. In index.js, after a non-empty fetch, the cycle classifies the records
  with a truthy id among the first 100, and each of them for whose id the lookup in the
  stored rankings finds nothing is classified "up"; when the rankings file is lost, empty
  or unreadable these are all of them but those whose id names a property that every
  object inherits (such as \<^verbatim>\<open>constructor\<close>), about which nothing is said. In
  24hr_check.js every cycle on a non-empty list that runs to its end has classified 100
  positions, and a cycle on 100 collections whose backgrounds load does run to its end;
  when no snapshot lies within an hour of the target time, which is so whenever the
  history file is lost, unreadable or empty, every collection is classified "same"; when
  there is one, a collection for whose id the lookup in it finds nothing is classified
  "up".
\<close>

theorem lost_reference_movement:
  "(collections \<noteq> [] \<longrightarrow>
      map entryRank (classified (updateRankings_index assets collections w))
        = map Suc (filter (\<lambda>i. truthyId (collections ! i)) [0..<min (length collections) 100])
      \<and> (\<forall>e\<in>set (classified (updateRankings_index assets collections w)).
           getProp (case previousRankingsFile w of None \<Rightarrow> Map.empty | Some stored \<Rightarrow> stored)
             (entryId e) = Absent
           \<longrightarrow> entryMovement e = Up)
      \<and> (previousRankingsFile w = None \<longrightarrow>
           (\<forall>e\<in>set (classified (updateRankings_index assets collections w)).
              entryId e \<notin> inheritedNames \<longrightarrow> entryMovement e = Up)))
   \<and> (updateRankings_24hr assets now collections w = Returned c \<and> collections \<noteq> [] \<longrightarrow>
        map entryRank (classified c) = [1..<101]
        \<and> (\<forall>e\<in>set (classified c).
             case getPreviousRankings
                    (case rankingsHistoryFile w of None \<Rightarrow> [] | Some h \<Rightarrow> h) (now - 24 * 3600) of
               None \<Rightarrow> entryMovement e = Same
             | Some reference \<Rightarrow>
                 getProp reference (entryId e) = Absent \<longrightarrow> entryMovement e = Up))
   \<and> (length collections = 100 \<and> allAssets \<subseteq> assets \<longrightarrow>
        returned (updateRankings_24hr assets now collections w))
   \<and> (rankingsHistoryFile w = None \<or> rankingsHistoryFile w = Some [] \<longrightarrow>
        getPreviousRankings
          (case rankingsHistoryFile w of None \<Rightarrow> [] | Some h \<Rightarrow> h) (now - 24 * 3600) = None)"
proof (intro conjI impI)
  assume ne: "collections \<noteq> []"
  let ?pr = "case previousRankingsFile w of None \<Rightarrow> Map.empty | Some stored \<Rightarrow> stored"
  let ?pc = "case previousColorsFile w of None \<Rightarrow> Map.empty | Some m \<Rightarrow> m"
  note cl = index_cycle_classified [OF ne, of assets w]
  show "map entryRank (classified (updateRankings_index assets collections w))
        = map Suc (filter (\<lambda>i. truthyId (collections ! i)) [0..<min (length collections) 100])"
    unfolding cl by (simp add: entryOf_fields(1) comp_def)
  show unseen: "\<forall>e\<in>set (classified (updateRankings_index assets collections w)).
           getProp ?pr (entryId e) = Absent \<longrightarrow> entryMovement e = Up"
  proof (intro ballI impI)
    fix e
    assume e: "e \<in> set (classified (updateRankings_index assets collections w))"
      and unseen: "getProp ?pr (entryId e) = Absent"
    from e obtain i where i: "i < 100" and ei: "e = entryOf ?pr ?pc collections i"
      unfolding cl by auto
    from unseen have "getProp ?pr (keyOf (cid (collections ! i))) = Absent"
      by (simp add: ei entryOf_fields(2))
    then have "entryMovement e = rankMovement (int (i + 1)) (rankOr101 Absent)"
      by (simp only: ei entryOf_fields(3))
    then show "entryMovement e = Up" by (simp only: unseen_is_up [OF i])
  qed
  show "\<forall>e\<in>set (classified (updateRankings_index assets collections w)).
              entryId e \<notin> inheritedNames \<longrightarrow> entryMovement e = Up"
    if lost: "previousRankingsFile w = None"
  proof (intro ballI impI)
    fix e
    assume e: "e \<in> set (classified (updateRankings_index assets collections w))"
      and "entryId e \<notin> inheritedNames"
    then have "getProp ?pr (entryId e) = Absent" by (simp add: lost getProp_empty)
    with unseen e show "entryMovement e = Up" by blast
  qed
next
  assume a: "updateRankings_24hr assets now collections w = Returned c \<and> collections \<noteq> []"
  let ?pr = "getPreviousRankings (case rankingsHistoryFile w of None \<Rightarrow> [] | Some h \<Rightarrow> h) (now - 24 * 3600)"
  from a have run: "updateRankings_24hr assets now collections w = Returned c"
    and ne: "collections \<noteq> []" by simp_all
  note l = cycle24_returned [OF run ne]
  have "map entryRank (classified c) = map Suc [0..<100]"
    unfolding l by (simp add: entry24_fields(1) comp_def del: upt_Suc)
  then show "map entryRank (classified c) = [1..<101]"
    by (simp only: map_Suc_upt) simp
  show "\<forall>e\<in>set (classified c).
             case ?pr of
               None \<Rightarrow> entryMovement e = Same
             | Some reference \<Rightarrow>
                 getProp reference (entryId e) = Absent \<longrightarrow> entryMovement e = Up"
  proof
    fix e assume "e \<in> set (classified c)"
    then obtain i where i: "i < 100" and ei: "e = entry24 ?pr collections i"
      unfolding l by auto
    show "case ?pr of
               None \<Rightarrow> entryMovement e = Same
             | Some reference \<Rightarrow>
                 getProp reference (entryId e) = Absent \<longrightarrow> entryMovement e = Up"
    proof (cases ?pr)
      case None
      then show ?thesis by (simp add: ei entry24_fields(3))
    next
      case (Some reference)
      show ?thesis
      proof (simp only: Some option.case, intro impI)
        assume "getProp reference (entryId e) = Absent"
        then have "getProp reference (keyOf (cid (collections ! i))) = Absent"
          by (simp add: ei entry24_fields(2))
        then have "entryMovement e = rankMovement (int (i + 1)) (rankOr101 Absent)"
          by (simp only: ei entry24_fields(3) Some option.case)
        then show "entryMovement e = Up" by (simp only: unseen_is_up [OF i])
      qed
    qed
  qed
next
  assume a: "length collections = 100 \<and> allAssets \<subseteq> assets"
  let ?pr = "getPreviousRankings (case rankingsHistoryFile w of None \<Rightarrow> [] | Some h \<Rightarrow> h) (now - 24 * 3600)"
  from a have len: "length collections = 100" by simp
  from a have "\<forall>i<100. entryColor (entry24 ?pr collections i) \<in> assets"
    using entry24_color_loads by blast
  from cycle24_completes [OF len this]
  show "returned (updateRankings_24hr assets now collections w)"
    by (auto simp: returned_def)
next
  assume "rankingsHistoryFile w = None \<or> rankingsHistoryFile w = Some []"
  then show "getPreviousRankings
          (case rankingsHistoryFile w of None \<Rightarrow> [] | Some h \<Rightarrow> h) (now - 24 * 3600) = None"
    by (rule getPreviousRankings_lost)
qed

theorem lost_reference_movement_witness:
  "[sampleCollection 0, sampleCollection 1] \<noteq> []
   \<and> map entryMovement (classified (updateRankings_index allAssets
         [sampleCollection 0, sampleCollection 1] freshWorld)) = [Up, Up]
   \<and> length hundredCollections = 100 \<and> allAssets \<subseteq> allAssets
   \<and> hundredCollections \<noteq> []
   \<and> updateRankings_24hr allAssets 100000 hundredCollections freshWorld
       = Returned (cycleOf (updateRankings_24hr allAssets 100000 hundredCollections freshWorld))
   \<and> map entryMovement (classified (cycleOf
         (updateRankings_24hr allAssets 100000 hundredCollections freshWorld)))
       = replicate 100 Same"
proof -
  let ?two = "[sampleCollection 0, sampleCollection 1]"
  let ?log = "classified (updateRankings_index allAssets ?two freshWorld)"
  let ?run = "updateRankings_24hr allAssets 100000 hundredCollections freshWorld"
  have len: "length hundredCollections = 100" by (simp add: hundredCollections_def)
  then have ne: "hundredCollections \<noteq> []" by auto
  have lost: "previousRankingsFile freshWorld = None" "rankingsHistoryFile freshWorld = None"
    by (simp_all add: freshWorld_def)
  note index = lost_reference_movement
    [where collections = ?two and assets = allAssets and w = freshWorld and now = 100000
       and c = "cycleOf ?run"]
  note hist = lost_reference_movement
    [where collections = hundredCollections and assets = allAssets and w = freshWorld
       and now = 100000 and c = "cycleOf ?run"]
  have ne2: "?two \<noteq> []" by simp
  have sub: "allAssets \<subseteq> allAssets" by simp
  from index ne2
  have i1: "map entryRank ?log
            = map Suc (filter (\<lambda>i. truthyId (?two ! i)) [0..<min (length ?two) 100])"
    and i2: "previousRankingsFile freshWorld = None \<longrightarrow>
           (\<forall>e\<in>set ?log. entryId e \<notin> inheritedNames \<longrightarrow> entryMovement e = Up)"
    by blast+
  have idx: "filter (\<lambda>i. truthyId (?two ! i)) [0..<min (length ?two) 100] = [0, 1]"
    by (simp add: truthyId_def sampleCollection_def upt_rec)
  with i1 have "length (map entryRank ?log) = 2" by simp
  then have n2: "length ?log = 2" by simp
  have ids: "map entryId ?log = [''c'', ''cx'']"
    using index_cycle_classified [OF ne2, of allAssets freshWorld] unfolding idx
    by (simp add: entryOf_fields(2) sampleCollection_def keyOf_def)
  have "\<forall>e\<in>set ?log. entryId e \<notin> inheritedNames"
  proof
    fix e assume "e \<in> set ?log"
    then have "entryId e \<in> set (map entryId ?log)" by simp
    then show "entryId e \<notin> inheritedNames" unfolding ids by (auto simp: inheritedNames_def)
  qed
  with i2 lost have "\<forall>e\<in>set ?log. entryMovement e = Up" by blast
  from map_const_replicate [OF this] n2
  have a: "map entryMovement ?log = [Up, Up]" by (simp add: numeral_2_eq_2)
  from hist len sub have r: "returned ?run" by blast
  then have eq: "?run = Returned (cycleOf ?run)"
    by (cases ?run) (simp_all add: returned_def cycleOf_def)
  from hist eq ne
  have h1: "map entryRank (classified (cycleOf ?run)) = [1..<101]"
    and h2: "\<forall>e\<in>set (classified (cycleOf ?run)).
             case getPreviousRankings
                    (case rankingsHistoryFile freshWorld of None \<Rightarrow> [] | Some h \<Rightarrow> h) (100000 - 24 * 3600) of
               None \<Rightarrow> entryMovement e = Same
             | Some reference \<Rightarrow>
                 getProp reference (entryId e) = Absent \<longrightarrow> entryMovement e = Up"
    by blast+
  from hist lost have none: "getPreviousRankings
          (case rankingsHistoryFile freshWorld of None \<Rightarrow> [] | Some h \<Rightarrow> h) (100000 - 24 * 3600) = None"
    by blast
  from h1 have "length (map entryRank (classified (cycleOf ?run))) = 100" by simp
  then have n100: "length (classified (cycleOf ?run)) = 100" by simp
  from h2 have "\<forall>e\<in>set (classified (cycleOf ?run)). entryMovement e = Same"
    unfolding none by simp
  from map_const_replicate [OF this] n100
  have b: "map entryMovement (classified (cycleOf ?run)) = replicate 100 Same" by simp
  from a b len ne eq show ?thesis by simp
qed

subsection \<open>An empty fetch\<close>

text \<open>
  C4, as the claim states it, fails in index.js: on an empty fetch the cycle assigns
  \<^verbatim>\<open>latestCollections = []\<close>, so a cache that held a collection is emptied.
\<close>

theorem empty_fetch_counterexample:
  "latestCollections (disk (updateRankings_index allAssets []
      (freshWorld\<lparr>latestCollections := [sampleCollection 0]\<rparr>)))
   \<noteq> latestCollections (freshWorld\<lparr>latestCollections := [sampleCollection 0]\<rparr>)"
  by (simp add: updateRankings_index_def)

text \<open>
  C4, amended. When the fetch returns no collection the cycle ends at once: the ranking,
  colour and history files and the images stay as they are. In index.js the cache
  \<^verbatim>\<open>latestCollections\<close> is set to the empty list and nothing else changes; in
  24hr_check.js and working_redGreen.js nothing changes at all.
\<close>

theorem empty_fetch_keeps_files:
  "disk (updateRankings_index assets [] w) = w\<lparr>latestCollections := []\<rparr>
   \<and> previousRankingsFile (disk (updateRankings_index assets [] w)) = previousRankingsFile w
   \<and> previousColorsFile (disk (updateRankings_index assets [] w)) = previousColorsFile w
   \<and> imagesDir (disk (updateRankings_index assets [] w)) = imagesDir w
   \<and> latestCollections (disk (updateRankings_index assets [] w)) = []
   \<and> returned (updateRankings_24hr assets now [] w)
   \<and> disk (cycleOf (updateRankings_24hr assets now [] w)) = w
   \<and> returned (updateRankings_redGreen assets [] w)
   \<and> disk (cycleOf (updateRankings_redGreen assets [] w)) = w"
  by (simp add: updateRankings_index_def updateRankings_24hr_def updateRankings_redGreen_def
      returned_def cycleOf_def)

subsection \<open>A short list\<close>

text \<open>
  C5 fails in working_redGreen.js, whose loop runs to 100 whatever the list holds: on a
  non-empty list of fewer than 100 records the cycle never returns. It throws, and the
  ranking and colour files are not written. When the backgrounds load, the iterations for
  the positions of the list are done, and then the read of the position just beyond the
  list gives \<^verbatim>\<open>undefined\<close> and \<^verbatim>\<open>collection.id\<close> throws a TypeError.
\<close>

theorem short_list_throws:
  "collections \<noteq> [] \<and> length collections < 100 \<longrightarrow>
     \<not> returned (updateRankings_redGreen assets collections w)
     \<and> previousRankingsFile (disk (cycleOf (updateRankings_redGreen assets collections w)))
         = previousRankingsFile w
     \<and> previousColorsFile (disk (cycleOf (updateRankings_redGreen assets collections w)))
         = previousColorsFile w
     \<and> ((\<forall>i<length collections. entryColor (entryOf
               (case previousRankingsFile w of None \<Rightarrow> Map.empty | Some m \<Rightarrow> m)
               (case previousColorsFile w of None \<Rightarrow> Map.empty | Some m \<Rightarrow> m) collections i)
             \<in> assets) \<longrightarrow>
          (\<exists>c. updateRankings_redGreen assets collections w = Threw TypeError c
              \<and> map entryRank (classified c) = [1..<length collections + 1]))"
proof (intro impI)
  assume a: "collections \<noteq> [] \<and> length collections < 100"
  then have ne: "collections \<noteq> []" and short: "length collections < 100" by simp_all
  let ?pr = "case previousRankingsFile w of None \<Rightarrow> Map.empty | Some m \<Rightarrow> m"
  let ?pc = "case previousColorsFile w of None \<Rightarrow> Map.empty | Some m \<Rightarrow> m"
  from redGreen_cycle_short [OF ne short, of assets w]
  obtain e c where run: "updateRankings_redGreen assets collections w = Threw e c"
    and files: "previousRankingsFile (disk c) = previousRankingsFile w"
       "previousColorsFile (disk c) = previousColorsFile w"
    by blast
  have 1: "\<not> returned (updateRankings_redGreen assets collections w)"
    and 2: "previousRankingsFile (disk (cycleOf (updateRankings_redGreen assets collections w)))
         = previousRankingsFile w"
    and 3: "previousColorsFile (disk (cycleOf (updateRankings_redGreen assets collections w)))
         = previousColorsFile w"
    using files unfolding run by (simp_all add: returned_def cycleOf_def)
  have 4: "(\<forall>i<length collections. entryColor (entryOf ?pr ?pc collections i) \<in> assets) \<longrightarrow>
          (\<exists>c. updateRankings_redGreen assets collections w = Threw TypeError c
              \<and> map entryRank (classified c) = [1..<length collections + 1])"
  proof
    assume col: "\<forall>i<length collections. entryColor (entryOf ?pr ?pc collections i) \<in> assets"
    from redGreen_cycle_short_TypeError [OF ne short col]
    obtain c' where t: "updateRankings_redGreen assets collections w = Threw TypeError c'"
      and l: "classified c' = map (entryOf ?pr ?pc collections) [0..<length collections]"
      by blast
    have "map entryRank (classified c') = [1..<length collections + 1]"
      unfolding l by (simp add: entryOf_fields(1) comp_def map_Suc_upt)
    with t show "\<exists>c. updateRankings_redGreen assets collections w = Threw TypeError c
              \<and> map entryRank (classified c) = [1..<length collections + 1]" by blast
  qed
  from 1 2 3 4 show "\<not> returned (updateRankings_redGreen assets collections w)
     \<and> previousRankingsFile (disk (cycleOf (updateRankings_redGreen assets collections w)))
         = previousRankingsFile w
     \<and> previousColorsFile (disk (cycleOf (updateRankings_redGreen assets collections w)))
         = previousColorsFile w
     \<and> ((\<forall>i<length collections. entryColor (entryOf ?pr ?pc collections i) \<in> assets) \<longrightarrow>
          (\<exists>c. updateRankings_redGreen assets collections w = Threw TypeError c
              \<and> map entryRank (classified c) = [1..<length collections + 1]))"
    by blast
qed

theorem short_list_throws_witness:
  "[sampleCollection 0] \<noteq> [] \<and> length [sampleCollection 0] < 100
   \<and> updateRankings_redGreen allAssets [sampleCollection 0] freshWorld
       = Threw TypeError (cycleOf (updateRankings_redGreen allAssets [sampleCollection 0] freshWorld))
   \<and> \<not> returned (updateRankings_redGreen allAssets [sampleCollection 0] freshWorld)
   \<and> map entryRank (classified (cycleOf
         (updateRankings_redGreen allAssets [sampleCollection 0] freshWorld))) = [1]
   \<and> previousRankingsFile (disk (cycleOf
         (updateRankings_redGreen allAssets [sampleCollection 0] freshWorld))) = None"
proof -
  let ?run = "updateRankings_redGreen allAssets [sampleCollection 0] freshWorld"
  have a: "[sampleCollection 0] \<noteq> [] \<and> length [sampleCollection 0] < 100" by simp
  have col: "\<forall>i<length [sampleCollection 0]. entryColor (entryOf
               (case previousRankingsFile freshWorld of None \<Rightarrow> Map.empty | Some m \<Rightarrow> m)
               (case previousColorsFile freshWorld of None \<Rightarrow> Map.empty | Some m \<Rightarrow> m)
               [sampleCollection 0] i) \<in> allAssets"
    by (simp add: entryOf_def entryColor_def freshWorld_def rankOr101_def rankMovement_def
        stickyColor_def allAssets_def getProp_def inheritedNames_def numLess_def
        sampleCollection_def keyOf_def Let_def)
  from short_list_throws [of "[sampleCollection 0]" allAssets freshWorld] a col
  have nr: "\<not> returned ?run"
    and f: "previousRankingsFile (disk (cycleOf ?run)) = previousRankingsFile freshWorld"
    and t: "\<exists>c. ?run = Threw TypeError c \<and> map entryRank (classified c) = [1..<length [sampleCollection 0] + 1]"
    by blast+
  from t obtain c where c: "?run = Threw TypeError c" "map entryRank (classified c) = [1..<length [sampleCollection 0] + 1]"
    by blast
  then have "cycleOf ?run = c" by (simp add: cycleOf_def)
  with c f nr show ?thesis by (simp add: freshWorld_def)
qed

subsection \<open>Sticky colour\<close>

text \<open>
  C6. The colour is "green" on "up" and "red" on "down"; on "same" it is the stored colour
  when one is stored and "red" when none is. A stored colour counts when it is not the
  empty string (\<^verbatim>\<open>||\<close> treats the empty string as missing); the rule never produces an
  empty colour, so every colour a cycle stores counts in the next one. For the movements
  up, same, same, down, same, starting from no stored colour, the colours are green,
  green, green, red, red: by the rule applied to its own results, and in five cycles of
  index.js in which the collection \<^verbatim>\<open>"c"\<close> holds rank 1 three times and then rank 2
  twice.
\<close>

theorem sticky_color_rule:
  "stickyColor Up previous = Named ''green''
   \<and> stickyColor Down previous = Named ''red''
   \<and> stickyColor Same Absent = Named ''red''
   \<and> (stored \<noteq> [] \<longrightarrow> stickyColor Same (Own stored) = Named stored)
   \<and> stickyColor m previous \<noteq> Named []
   \<and> (let c1 = stickyColor Up Absent;
           c2 = stickyColor Same (case c1 of Named s \<Rightarrow> Own s | Prototype n \<Rightarrow> Inherited n);
           c3 = stickyColor Same (case c2 of Named s \<Rightarrow> Own s | Prototype n \<Rightarrow> Inherited n);
           c4 = stickyColor Down (case c3 of Named s \<Rightarrow> Own s | Prototype n \<Rightarrow> Inherited n);
           c5 = stickyColor Same (case c4 of Named s \<Rightarrow> Own s | Prototype n \<Rightarrow> Inherited n)
       in [c1, c2, c3, c4, c5]
          = [Named ''green'', Named ''green'', Named ''green'', Named ''red'', Named ''red''])
   \<and> cycles_index allAssets
        [[sampleCollection 0, sampleCollection 1],
         [sampleCollection 0, sampleCollection 1],
         [sampleCollection 0, sampleCollection 1],
         [sampleCollection 1, sampleCollection 0],
         [sampleCollection 1, sampleCollection 0]] freshWorld
      = [[(1, ''c'', Up, Named ''green''), (2, ''cx'', Up, Named ''green'')],
         [(1, ''c'', Same, Named ''green''), (2, ''cx'', Same, Named ''green'')],
         [(1, ''c'', Same, Named ''green''), (2, ''cx'', Same, Named ''green'')],
         [(1, ''cx'', Up, Named ''green''), (2, ''c'', Down, Named ''red'')],
         [(1, ''cx'', Same, Named ''green''), (2, ''c'', Same, Named ''red'')]]"
proof -
  have a: "stickyColor Up previous = Named ''green''" "stickyColor Down previous = Named ''red''"
    "stickyColor Same Absent = Named ''red''"
    "stored \<noteq> [] \<longrightarrow> stickyColor Same (Own stored) = Named stored"
    by (simp_all add: stickyColor_def)
  have n: "stickyColor m previous \<noteq> Named []"
    by (simp add: stickyColor_def split: movement.splits property.splits)
  have b: "(let c1 = stickyColor Up Absent;
           c2 = stickyColor Same (case c1 of Named s \<Rightarrow> Own s | Prototype n \<Rightarrow> Inherited n);
           c3 = stickyColor Same (case c2 of Named s \<Rightarrow> Own s | Prototype n \<Rightarrow> Inherited n);
           c4 = stickyColor Down (case c3 of Named s \<Rightarrow> Own s | Prototype n \<Rightarrow> Inherited n);
           c5 = stickyColor Same (case c4 of Named s \<Rightarrow> Own s | Prototype n \<Rightarrow> Inherited n)
       in [c1, c2, c3, c4, c5]
          = [Named ''green'', Named ''green'', Named ''green'', Named ''red'', Named ''red''])"
    by (simp add: stickyColor_def)
  have c: "cycles_index allAssets
        [[sampleCollection 0, sampleCollection 1],
         [sampleCollection 0, sampleCollection 1],
         [sampleCollection 0, sampleCollection 1],
         [sampleCollection 1, sampleCollection 0],
         [sampleCollection 1, sampleCollection 0]] freshWorld
      = [[(1, ''c'', Up, Named ''green''), (2, ''cx'', Up, Named ''green'')],
         [(1, ''c'', Same, Named ''green''), (2, ''cx'', Same, Named ''green'')],
         [(1, ''c'', Same, Named ''green''), (2, ''cx'', Same, Named ''green'')],
         [(1, ''cx'', Up, Named ''green''), (2, ''c'', Down, Named ''red'')],
         [(1, ''cx'', Same, Named ''green''), (2, ''c'', Same, Named ''red'')]]"
    by code_simp
  from a n b c show ?thesis by blast
qed

theorem sticky_color_rule_witness:
  "''blue'' \<noteq> [] \<and> stickyColor Same (Own ''blue'') = Named ''blue''
   \<and> stickyColor Same (Own []) = Named ''red''"
  using sticky_color_rule [of Absent "''blue''" Same] by (simp add: stickyColor_def)

subsection \<open>Pruning\<close>

text \<open>
  C7. Pruning keeps a snapshot exactly when it is in the history and its timestamp is at
  least \<open>now - 25 * 3600\<close>; what it keeps is the history without the snapshots whose
  timestamp is strictly less than that, in the order of the history and as often as the
  history holds them. From snapshots at t - 26h, t - 20h and t - 1h it keeps, at time t,
  the last two.
\<close>

theorem prune_drops_exactly:
  "(\<forall>s. s \<in> set (prune history now) \<longleftrightarrow> s \<in> set history \<and> timestamp s \<ge> now - 25 * 3600)
   \<and> subseq (prune history now) history
   \<and> prune history now = filter (\<lambda>s. \<not> timestamp s < now - 25 * 3600) history
   \<and> (\<forall>s. count_list (prune history now) s
          = (if timestamp s < now - 25 * 3600 then 0 else count_list history s))
   \<and> prune [\<lparr>timestamp = t - 26 * 3600, rankings = r1\<rparr>,
            \<lparr>timestamp = t - 20 * 3600, rankings = r2\<rparr>,
            \<lparr>timestamp = t - 1 * 3600, rankings = r3\<rparr>] t
      = [\<lparr>timestamp = t - 20 * 3600, rankings = r2\<rparr>,
         \<lparr>timestamp = t - 1 * 3600, rankings = r3\<rparr>]"
proof -
  have same: "filter (\<lambda>s. timestamp s \<ge> now - 25 * 3600) history
              = filter (\<lambda>s. \<not> timestamp s < now - 25 * 3600) history"
    by (rule filter_cong) auto
  have cnt: "count_list (filter P xs) s = (if P s then count_list xs s else 0)"
    for P :: "snapshot \<Rightarrow> bool" and xs s
    by (induction xs) auto
  have p: "prune xs n = filter (\<lambda>s. timestamp s \<ge> n - 25 * 3600) xs" for xs n
    by (simp add: prune_def)
  have "subseq (prune history now) history"
    unfolding p by (rule subseq_filter_left)
  moreover have "prune history now = filter (\<lambda>s. \<not> timestamp s < now - 25 * 3600) history"
    unfolding p by (rule same)
  moreover have "\<forall>s. s \<in> set (prune history now) \<longleftrightarrow> s \<in> set history \<and> timestamp s \<ge> now - 25 * 3600"
    unfolding p by auto
  moreover have "\<forall>s. count_list (prune history now) s
          = (if timestamp s < now - 25 * 3600 then 0 else count_list history s)"
    unfolding p cnt by auto
  moreover have "prune [\<lparr>timestamp = t - 26 * 3600, rankings = r1\<rparr>,
            \<lparr>timestamp = t - 20 * 3600, rankings = r2\<rparr>,
            \<lparr>timestamp = t - 1 * 3600, rankings = r3\<rparr>] t
      = [\<lparr>timestamp = t - 20 * 3600, rankings = r2\<rparr>,
         \<lparr>timestamp = t - 1 * 3600, rankings = r3\<rparr>]"
    unfolding p by simp
  ultimately show ?thesis by blast
qed

subsection \<open>A record without an id\<close>

text \<open>
  C8 fails in working_redGreen.js, which does not test \<^verbatim>\<open>collection.id\<close> as index.js
  does. On 100 records whose
  backgrounds load the cycle returns, and a record without an id is processed like the
  others: it has a log entry under the id \<^verbatim>\<open>"undefined"\<close>, its image is written, and
  the ranking and colour files hold an entry under the key \<^verbatim>\<open>"undefined"\<close>.
\<close>

theorem nameless_record_processed:
  "length collections = 100 \<and> i < 100 \<and> cid (collections ! i) = None
   \<and> (\<forall>j<100. entryColor (entryOf
               (case previousRankingsFile w of None \<Rightarrow> Map.empty | Some m \<Rightarrow> m)
               (case previousColorsFile w of None \<Rightarrow> Map.empty | Some m \<Rightarrow> m) collections j)
             \<in> assets) \<longrightarrow>
     returned (updateRankings_redGreen assets collections w)
     \<and> (\<exists>e\<in>set (classified (cycleOf (updateRankings_redGreen assets collections w))).
           entryRank e = i + 1 \<and> entryId e = ''undefined'')
     \<and> (\<exists>b. imagesDir (disk (cycleOf (updateRankings_redGreen assets collections w))) (i + 1)
              = Some b \<and> drawnRank b = int (i + 1))
     \<and> (\<exists>m. previousRankingsFile (disk (cycleOf (updateRankings_redGreen assets collections w)))
              = Some m \<and> m ''undefined'' \<noteq> None)
     \<and> (\<exists>m. previousColorsFile (disk (cycleOf (updateRankings_redGreen assets collections w)))
              = Some m \<and> m ''undefined'' \<noteq> None)"
proof (intro impI)
  let ?pr = "case previousRankingsFile w of None \<Rightarrow> Map.empty | Some m \<Rightarrow> m"
  let ?pc = "case previousColorsFile w of None \<Rightarrow> Map.empty | Some m \<Rightarrow> m"
  let ?run = "updateRankings_redGreen assets collections w"
  assume a: "length collections = 100 \<and> i < 100 \<and> cid (collections ! i) = None
   \<and> (\<forall>j<100. entryColor (entryOf ?pr ?pc collections j) \<in> assets)"
  then have len: "length collections = 100" and i: "i < 100"
    and noid: "cid (collections ! i) = None"
    and col: "\<forall>j<100. entryColor (entryOf ?pr ?pc collections j) \<in> assets" by simp_all
  from noid have key: "keyOf (cid (collections ! i)) = ''undefined''" by (simp add: keyOf_def)
  from redGreen_cycle_completes [OF len col]
  obtain c where run: "?run = Returned c"
    and l: "classified c = map (entryOf ?pr ?pc collections) [0..<100]"
    and im: "imagesDir (disk c)
         = fold (\<lambda>i d. d(i + 1 \<mapsto> imageOf collections i (entryColor (entryOf ?pr ?pc collections i))))
             [0..<100] (imagesDir w)"
    and r: "previousRankingsFile (disk c)
         = Some (fold (\<lambda>i m. setProp m (keyOf (cid (collections ! i))) (int (i + 1)))
             [0..<100] Map.empty)"
    and k: "previousColorsFile (disk c)
         = Some (stringifyColors (fold (\<lambda>i m. setProp m (keyOf (cid (collections ! i)))
                   (entryColor (entryOf ?pr ?pc collections i))) [0..<100] Map.empty))"
    by blast
  have proto: "keyOf (cid (collections ! i)) \<noteq> ''__proto__''" unfolding key by simp
  from run have c: "cycleOf ?run = c" and ret: "returned ?run"
    by (simp_all add: cycleOf_def returned_def)
  from i have "entryOf ?pr ?pc collections i \<in> set (classified c)"
    unfolding l by (auto simp del: upt_Suc)
  then have 1: "\<exists>e\<in>set (classified c). entryRank e = i + 1 \<and> entryId e = ''undefined''"
    using key by (intro bexI [of _ "entryOf ?pr ?pc collections i"]) (simp_all add: entryOf_fields)
  have "imagesDir (disk c) (i + 1)
        = Some (imageOf collections i (entryColor (entryOf ?pr ?pc collections i)))"
    unfolding im by (rule fold_upd_by_index [OF i])
  then have 2: "\<exists>b. imagesDir (disk c) (i + 1) = Some b \<and> drawnRank b = int (i + 1)"
    by (simp add: imageOf_def)
  from fold_setProp_by_key
         [of i 100 "\<lambda>j. keyOf (cid (collections ! j))" "\<lambda>j. int (j + 1)" Map.empty, OF i proto]
  have "fold (\<lambda>i m. setProp m (keyOf (cid (collections ! i))) (int (i + 1))) [0..<100] Map.empty
          (keyOf (cid (collections ! i))) \<noteq> None"
    by auto
  with r key have 3: "\<exists>m. previousRankingsFile (disk c) = Some m \<and> m ''undefined'' \<noteq> None"
    by simp
  from fold_setProp_by_key
         [of i 100 "\<lambda>j. keyOf (cid (collections ! j))"
            "\<lambda>j. entryColor (entryOf ?pr ?pc collections j)" Map.empty, OF i proto]
  obtain j where j: "keyOf (cid (collections ! j)) = keyOf (cid (collections ! i))"
    and stored: "fold (\<lambda>i m. setProp m (keyOf (cid (collections ! i)))
                   (entryColor (entryOf ?pr ?pc collections i))) [0..<100] Map.empty
          (keyOf (cid (collections ! i))) = Some (entryColor (entryOf ?pr ?pc collections j))"
    by blast
  have "\<exists>s. entryColor (entryOf ?pr ?pc collections j) = Named s"
    unfolding entryOf_fields(4) j key
    by (simp add: stickyColor_def getProp_def undefined_not_inherited
        split: movement.splits option.splits)
  then obtain s where "entryColor (entryOf ?pr ?pc collections j) = Named s" by blast
  with stored key
  have "stringifyColors (fold (\<lambda>i m. setProp m (keyOf (cid (collections ! i)))
                   (entryColor (entryOf ?pr ?pc collections i))) [0..<100] Map.empty)
          ''undefined'' = Some s"
    by (simp add: stringifyColors_def)
  with k have 4: "\<exists>m. previousColorsFile (disk c) = Some m \<and> m ''undefined'' \<noteq> None"
    by simp
  from ret 1 2 3 4 show "returned ?run
     \<and> (\<exists>e\<in>set (classified (cycleOf ?run)). entryRank e = i + 1 \<and> entryId e = ''undefined'')
     \<and> (\<exists>b. imagesDir (disk (cycleOf ?run)) (i + 1) = Some b \<and> drawnRank b = int (i + 1))
     \<and> (\<exists>m. previousRankingsFile (disk (cycleOf ?run)) = Some m \<and> m ''undefined'' \<noteq> None)
     \<and> (\<exists>m. previousColorsFile (disk (cycleOf ?run)) = Some m \<and> m ''undefined'' \<noteq> None)"
    unfolding c by blast
qed

theorem nameless_record_processed_witness:
  "length (hundredCollections[0 := namelessCollection]) = 100 \<and> (0::nat) < 100
   \<and> cid (hundredCollections[0 := namelessCollection] ! 0) = None
   \<and> returned (updateRankings_redGreen allAssets
         (hundredCollections[0 := namelessCollection]) freshWorld)
   \<and> (\<exists>e\<in>set (classified (cycleOf (updateRankings_redGreen allAssets
            (hundredCollections[0 := namelessCollection]) freshWorld))).
         entryRank e = 1 \<and> entryId e = ''undefined'')
   \<and> (\<exists>b. imagesDir (disk (cycleOf (updateRankings_redGreen allAssets
            (hundredCollections[0 := namelessCollection]) freshWorld))) 1 = Some b
          \<and> drawnRank b = 1)
   \<and> (\<exists>m. previousRankingsFile (disk (cycleOf (updateRankings_redGreen allAssets
            (hundredCollections[0 := namelessCollection]) freshWorld))) = Some m
          \<and> m ''undefined'' \<noteq> None)"
proof -
  let ?cs = "hundredCollections[0 := namelessCollection]"
  have len: "length ?cs = 100" by (simp add: hundredCollections_def)
  have noid: "cid (?cs ! 0) = None"
    by (simp add: hundredCollections_def namelessCollection_def del: upt_Suc)
  have key: "keyOf (cid (?cs ! j)) \<notin> inheritedNames" if "j < 100" for j
  proof (cases j)
    case 0
    then show ?thesis
      by (simp add: hundredCollections_def namelessCollection_def keyOf_def
          undefined_not_inherited del: upt_Suc)
  next
    case (Suc n)
    with that have "?cs ! j = sampleCollection j"
      by (simp add: hundredCollections_def del: upt_Suc)
    then show ?thesis by (simp add: sample_id_not_inherited)
  qed
  have up: "entryMovement (entryOf Map.empty pc ?cs j) = Up" if "j < 100" for j pc
    unfolding entryOf_fields(3) using key [OF that]
    by (simp only: getProp_empty if_False unseen_is_up [OF that])
  have col: "\<forall>j<100. entryColor (entryOf
               (case previousRankingsFile freshWorld of None \<Rightarrow> Map.empty | Some m \<Rightarrow> m)
               (case previousColorsFile freshWorld of None \<Rightarrow> Map.empty | Some m \<Rightarrow> m) ?cs j)
             \<in> allAssets"
    by (simp add: freshWorld_def entryOf_fields(4) up stickyColor_def allAssets_def)
  from nameless_record_processed [of ?cs 0 freshWorld allAssets] len noid col
  show ?thesis by simp
qed

subsection \<open>The metadata endpoint\<close>

text \<open>
  C9, as the claim states it, fails in 24hr_check.js: before any fetch, when no collection
  is known, the request for rank 50 is answered with a document and not with a 404.
\<close>

theorem metadata_counterexample:
  "\<not> (metadata_24hr (Some 50) = NotFound
        \<longleftrightarrow> (50::int) < 1 \<or> 50 > int (length (latestCollections freshWorld))
            \<or> latestCollections freshWorld = [])"
  by (simp add: metadata_24hr_def freshWorld_def)

text \<open>
  C9, amended. For a request whose rank parses to an integer \<open>t\<close>: index.js answers 404
  exactly when \<open>t\<close> is outside 1..count, where count is the number of collections of the
  last fetch (so always when nothing was fetched), and otherwise sends the document of the
  collection at rank \<open>t\<close>; 24hr_check.js, which keeps no collections, answers 404 exactly
  when \<open>t\<close> is outside 1..100 and otherwise sends a document naming rank \<open>t\<close>.
\<close>

theorem metadata_not_found_iff:
  "(metadata_index w (Some t) = NotFound
      \<longleftrightarrow> t < 1 \<or> t > int (length (latestCollections w)) \<or> latestCollections w = [])
   \<and> (1 \<le> t \<and> t \<le> int (length (latestCollections w)) \<longrightarrow>
        metadata_index w (Some t)
        = Json \<lparr>rankAttr = t,
                 collectionName = nameOrUnknown (cname (latestCollections w ! nat (t - 1))),
                 floorAttr = numberOrZero (floorDecimal (latestCollections w ! nat (t - 1))),
                 volumeAttr = numberOrZero (volume1day (latestCollections w ! nat (t - 1)))\<rparr>)
   \<and> (metadata_24hr (Some t) = NotFound \<longleftrightarrow> t < 1 \<or> t > 100)
   \<and> (1 \<le> t \<and> t \<le> 100 \<longrightarrow> metadata_24hr (Some t) = Json (Some t))"
  by (auto simp: metadata_index_def metadata_24hr_def at_index_def Let_def
      split: option.splits)

theorem metadata_not_found_iff_witness:
  "(1::int) \<le> 2 \<and> (2::int) \<le> int (length (latestCollections
        (freshWorld\<lparr>latestCollections := [sampleCollection 0, namelessCollection]\<rparr>)))
   \<and> metadata_index (freshWorld\<lparr>latestCollections := [sampleCollection 0, namelessCollection]\<rparr>)
        (Some 2)
      = Json \<lparr>rankAttr = 2, collectionName = ''Lost'', floorAttr = 0, volumeAttr = 0\<rparr>
   \<and> metadata_index (freshWorld\<lparr>latestCollections := [sampleCollection 0, namelessCollection]\<rparr>)
        (Some 3) = NotFound
   \<and> metadata_index freshWorld (Some 1) = NotFound
   \<and> (2::int) \<le> 100 \<and> metadata_24hr (Some 2) = Json (Some 2)
   \<and> metadata_24hr (Some 101) = NotFound"
  using metadata_not_found_iff
          [of "freshWorld\<lparr>latestCollections := [sampleCollection 0, namelessCollection]\<rparr>" 2]
        metadata_not_found_iff
          [of "freshWorld\<lparr>latestCollections := [sampleCollection 0, namelessCollection]\<rparr>" 3]
        metadata_not_found_iff [of freshWorld 1]
        metadata_not_found_iff [of freshWorld 101]
  by (simp add: freshWorld_def namelessCollection_def nameOrUnknown_def numberOrZero_def)

subsection \<open>The history after a cycle\<close>

text \<open>
  C10. A cycle of 24hr_check.js that fetched at least one collection and ran to its end
  has written a history that is the old one with the new snapshot appended and then
  pruned; it is not empty, its last entry is the new snapshot with timestamp \<open>now\<close>, and
  every entry has a timestamp of at least \<open>now - 25 * 3600\<close>. A cycle on 100 collections
  whose backgrounds load does run to its end.
\<close>

theorem history_after_cycle:
  "(updateRankings_24hr assets now collections w = Returned c \<and> collections \<noteq> [] \<longrightarrow>
      (\<exists>h. rankingsHistoryFile (disk c) = Some h
           \<and> h = prune ((case rankingsHistoryFile w of None \<Rightarrow> [] | Some old \<Rightarrow> old)
                   @ [\<lparr>timestamp = now, rankings = snapshotRankings collections\<rparr>]) now
           \<and> h \<noteq> []
           \<and> last h = \<lparr>timestamp = now, rankings = snapshotRankings collections\<rparr>
           \<and> (\<forall>s\<in>set h. timestamp s \<ge> now - 25 * 3600)))
   \<and> (length collections = 100 \<and> allAssets \<subseteq> assets \<longrightarrow>
        returned (updateRankings_24hr assets now collections w))"
proof (intro conjI impI)
  assume a: "updateRankings_24hr assets now collections w = Returned c \<and> collections \<noteq> []"
  let ?old = "case rankingsHistoryFile w of None \<Rightarrow> [] | Some old \<Rightarrow> old"
  let ?new = "\<lparr>timestamp = now, rankings = snapshotRankings collections\<rparr>"
  let ?h = "prune (?old @ [?new]) now"
  from a have written: "rankingsHistoryFile (disk c) = Some ?h"
    by (auto simp: updateRankings_24hr_def Let_def split: outcome.splits)
  have h: "?h = prune ?old now @ [?new]" by (simp add: prune_def)
  have "?h \<noteq> []" and "last ?h = ?new" unfolding h by simp_all
  moreover have "\<forall>s\<in>set ?h. timestamp s \<ge> now - 25 * 3600" by (simp add: prune_def)
  ultimately show "\<exists>h. rankingsHistoryFile (disk c) = Some h
           \<and> h = ?h \<and> h \<noteq> [] \<and> last h = ?new
           \<and> (\<forall>s\<in>set h. timestamp s \<ge> now - 25 * 3600)"
    using written by blast
next
  assume a: "length collections = 100 \<and> allAssets \<subseteq> assets"
  let ?pr = "getPreviousRankings (case rankingsHistoryFile w of None \<Rightarrow> [] | Some h \<Rightarrow> h) (now - 24 * 3600)"
  have "entryColor (entry24 ?pr collections i) \<in> allAssets" for i
    by (simp add: entry24_def entryColor_def allAssets_def Let_def split: movement.splits)
  with a have "\<forall>i<100. entryColor (entry24 ?pr collections i) \<in> assets" by blast
  from cycle24_completes [OF _ this] a
  show "returned (updateRankings_24hr assets now collections w)"
    by (auto simp: returned_def)
qed

theorem history_after_cycle_witness:
  "hundredCollections \<noteq> [] \<and> length hundredCollections = 100 \<and> allAssets \<subseteq> allAssets
   \<and> returned (updateRankings_24hr allAssets 100000 hundredCollections freshWorld)
   \<and> map timestamp (the (rankingsHistoryFile (disk (cycleOf
         (updateRankings_24hr allAssets 100000 hundredCollections freshWorld))))) = [100000]"
proof -
  let ?run = "updateRankings_24hr allAssets 100000 hundredCollections freshWorld"
  have len: "length hundredCollections = 100" by (simp add: hundredCollections_def)
  then have ne: "hundredCollections \<noteq> []" by auto
  from history_after_cycle [of allAssets 100000 hundredCollections freshWorld "cycleOf ?run"] len
  have r: "returned ?run" by simp
  then have eq: "?run = Returned (cycleOf ?run)"
    by (cases ?run) (simp_all add: returned_def cycleOf_def)
  from history_after_cycle [of allAssets 100000 hundredCollections freshWorld "cycleOf ?run"] eq ne
  have "rankingsHistoryFile (disk (cycleOf ?run))
        = Some (prune ((case rankingsHistoryFile freshWorld of None \<Rightarrow> [] | Some old \<Rightarrow> old)
                   @ [\<lparr>timestamp = 100000, rankings = snapshotRankings hundredCollections\<rparr>]) 100000)"
    by auto
  then have "map timestamp (the (rankingsHistoryFile (disk (cycleOf ?run)))) = [100000]"
    by (simp add: freshWorld_def prune_def)
  with len ne r show ?thesis by simp
qed

end
